theory Spec2Isabelle
  imports Complex_Main "HOL-Library.Log_Nat"
begin

section \<open>PayVoice policy service: budget ledger, trust registry, alerts, approval\<close>

text \<open>
  A shallow embedding of \<^verbatim>\<open>src/services/policy.js\<close> together with the tables of the
  migration script it runs against. Every function of the service takes the environment
  (clock, storage faults) and the database and returns the database it leaves behind.
\<close>

subsection \<open>JavaScript numbers\<close>

text \<open>
  A JavaScript number is an IEEE 754 double: a finite value, which is a rational, one of
  the two infinities, or NaN. Every arithmetic operation computes the exact result and
  rounds it to the nearest double, ties to even. The sign of zero is not represented: a
  zero divisor counts as positive zero, which is what a DECIMAL column holding 0 reads as.
\<close>

datatype jsnum = Num rat | PosInfinity | NegInfinity | NaN

text \<open>The nearest integer, ties to the even one.\<close>

definition round_half_even :: "rat \<Rightarrow> int" where
  "round_half_even x =
     (let f = \<lfloor>x\<rfloor>; r = x - of_int f
      in if r < 1 / 2 then f else if 1 / 2 < r then f + 1 else if even f then f else f + 1)"

text \<open>
  The binary exponent of a positive rational: \<open>2 powi ilog2 x \<le> x < 2 powi (ilog2 x + 1)\<close>.
  The bit lengths of numerator and denominator give it up to one.
\<close>

definition ilog2 :: "rat \<Rightarrow> int" where
  "ilog2 x =
     (let k = bitlen (fst (quotient_of x)) - bitlen (snd (quotient_of x))
      in if 2 powi k \<le> x then k else k - 1)"

text \<open>
  Rounding to a double. A value with binary exponent \<open>e\<close> is rounded to a multiple of
  \<open>2 powi (e - 52)\<close> (53 significant bits); below the exponent -1022 the spacing stays
  that of the subnormal numbers; a result of magnitude \<open>2 ^ 1024\<close> or more is infinite.
\<close>

definition binade :: "rat \<Rightarrow> int" where
  "binade x = max (ilog2 \<bar>x\<bar>) (- 1022)"

definition mantissa :: "rat \<Rightarrow> int" where
  "mantissa x = round_half_even (x / 2 powi (binade x - 52))"

definition fl :: "rat \<Rightarrow> jsnum" where
  "fl x =
     (if x = 0 then Num 0
      else if 1023 < binade x \<or> (binade x = 1023 \<and> \<bar>mantissa x\<bar> = 2 ^ 53)
      then (if 0 < x then PosInfinity else NegInfinity)
      else Num (of_int (mantissa x) * 2 powi (binade x - 52)))"

fun js_neg :: "jsnum \<Rightarrow> jsnum" where
  "js_neg (Num a) = Num (- a)"
| "js_neg PosInfinity = NegInfinity"
| "js_neg NegInfinity = PosInfinity"
| "js_neg NaN = NaN"

fun js_add :: "jsnum \<Rightarrow> jsnum \<Rightarrow> jsnum" where
  "js_add (Num a) (Num b) = fl (a + b)"
| "js_add NaN _ = NaN"
| "js_add _ NaN = NaN"
| "js_add PosInfinity NegInfinity = NaN"
| "js_add NegInfinity PosInfinity = NaN"
| "js_add PosInfinity _ = PosInfinity"
| "js_add _ PosInfinity = PosInfinity"
| "js_add NegInfinity _ = NegInfinity"
| "js_add _ NegInfinity = NegInfinity"

definition js_sub :: "jsnum \<Rightarrow> jsnum \<Rightarrow> jsnum" where
  "js_sub a b = js_add a (js_neg b)"

fun js_lt :: "jsnum \<Rightarrow> jsnum \<Rightarrow> bool" where
  "js_lt (Num a) (Num b) = (a < b)"
| "js_lt NaN _ = False"
| "js_lt _ NaN = False"
| "js_lt PosInfinity _ = False"
| "js_lt _ NegInfinity = False"
| "js_lt _ PosInfinity = True"
| "js_lt NegInfinity _ = True"

definition js_gt :: "jsnum \<Rightarrow> jsnum \<Rightarrow> bool" where
  "js_gt a b = js_lt b a"

definition js_le :: "jsnum \<Rightarrow> jsnum \<Rightarrow> bool" where
  "js_le a b = (a \<noteq> NaN \<and> b \<noteq> NaN \<and> \<not> js_lt b a)"

fun js_sign :: "jsnum \<Rightarrow> int" where
  "js_sign (Num a) = (if a < 0 then - 1 else if a = 0 then 0 else 1)"
| "js_sign PosInfinity = 1"
| "js_sign NegInfinity = - 1"
| "js_sign NaN = 0"

fun js_mul :: "jsnum \<Rightarrow> jsnum \<Rightarrow> jsnum" where
  "js_mul (Num a) (Num b) = fl (a * b)"
| "js_mul NaN _ = NaN"
| "js_mul _ NaN = NaN"
| "js_mul a b =
     (if js_sign a * js_sign b = 0 then NaN
      else if 0 < js_sign a * js_sign b then PosInfinity else NegInfinity)"

fun js_div :: "jsnum \<Rightarrow> jsnum \<Rightarrow> jsnum" where
  "js_div NaN _ = NaN"
| "js_div _ NaN = NaN"
| "js_div (Num a) (Num b) =
     (if b \<noteq> 0 then fl (a / b)
      else if a = 0 then NaN
      else if 0 < a then PosInfinity else NegInfinity)"
| "js_div (Num a) _ = Num 0"
| "js_div a (Num b) =
     (if 0 \<le> b then a else js_neg a)"
| "js_div _ _ = NaN"

text \<open>
  \<^verbatim>\<open>Math.round\<close> rounds halves upwards (the result is an integer a double can hold);
  \<^verbatim>\<open>Math.max\<close> is NaN as soon as an argument is.
\<close>

fun Math_round :: "jsnum \<Rightarrow> jsnum" where
  "Math_round (Num a) = Num (of_int \<lfloor>a + 1 / 2\<rfloor>)"
| "Math_round x = x"

definition Math_max :: "jsnum \<Rightarrow> jsnum \<Rightarrow> jsnum" where
  "Math_max a b = (if a = NaN \<or> b = NaN then NaN else if js_lt a b then b else a)"

text \<open>Truthiness of a number: zero and NaN are falsy.\<close>

fun truthy :: "jsnum \<Rightarrow> bool" where
  "truthy (Num a) = (a \<noteq> 0)"
| "truthy NaN = False"
| "truthy _ = True"

subsection \<open>Values crossing the storage boundary\<close>

text \<open>
  A DECIMAL or INTEGER column holds a number or NULL. A value read from storage arrives
  as a JSON number and becomes the nearest double; \<^verbatim>\<open>null\<close> stays \<^verbatim>\<open>null\<close>.
\<close>

type_synonym decimal = "rat option"

text \<open>\<^verbatim>\<open>parseFloat(v)\<close> of a column value: \<^verbatim>\<open>parseFloat(null)\<close> is NaN.\<close>

fun parseFloat :: "decimal \<Rightarrow> jsnum" where
  "parseFloat (Some a) = fl a"
| "parseFloat None = NaN"

text \<open>\<^verbatim>\<open>parseFloat(v || 0)\<close>: a null or zero column value gives 0.\<close>

fun parseFloat_or_0 :: "decimal \<Rightarrow> jsnum" where
  "parseFloat_or_0 (Some a) = (if truthy (fl a) then fl a else Num 0)"
| "parseFloat_or_0 None = Num 0"

text \<open>
  A value written to storage is serialised by \<^verbatim>\<open>JSON.stringify\<close>. A finite number is
  printed as the decimal with the fewest significant digits that still reads back as
  the same double and, among those, the one closest to it; the value of that decimal is
  what the database receives. With \<open>k\<close> digits the only decimals to try are the two
  neighbours of the number on the \<open>k\<close>-digit grid; 17 digits always suffice.
\<close>

text \<open>The number of decimal digits of a positive integer.\<close>

function digits10 :: "int \<Rightarrow> int" where
  "digits10 n = (if 0 < n then digits10 (n div 10) + 1 else 0)"
  by pat_completeness auto
termination
  by (relation "measure nat") auto

declare digits10.simps [simp del]

text \<open>The decimal exponent of a positive rational: \<open>10 powi (n - 1) \<le> x < 10 powi n\<close>.\<close>

definition decimal_exponent :: "rat \<Rightarrow> int" where
  "decimal_exponent x =
     (if 1 \<le> x then digits10 \<lfloor>x\<rfloor>
      else let m = digits10 \<lfloor>1 / x\<rfloor>
           in if x = 10 powi (1 - m) then 2 - m else 1 - m)"

definition digits_candidate :: "rat \<Rightarrow> int \<Rightarrow> rat option" where
  "digits_candidate x k =
     (let u = 10 powi (decimal_exponent x - k);
          s = \<lfloor>x / u\<rfloor>;
          lo = of_int s * u;
          hi = of_int (s + 1) * u
      in if fl lo = Num x \<and> fl hi = Num x
         then (if x - lo < hi - x then Some lo
               else if hi - x < x - lo then Some hi
               else if even s then Some lo else Some hi)
         else if fl lo = Num x then Some lo
         else if fl hi = Num x then Some hi
         else None)"

fun shortest_decimal :: "rat \<Rightarrow> int list \<Rightarrow> rat" where
  "shortest_decimal x [] = x"
| "shortest_decimal x (k # ks) =
     (case digits_candidate x k of Some c \<Rightarrow> c | None \<Rightarrow> shortest_decimal x ks)"

definition number_to_decimal :: "rat \<Rightarrow> rat" where
  "number_to_decimal x =
     (if x = 0 then 0
      else if 0 < x then shortest_decimal x [1..17]
      else - shortest_decimal (- x) [1..17])"

text \<open>
  A DECIMAL(10,2) column rounds what it receives to two decimals, halves away from zero,
  and rejects a result of magnitude \<open>10 ^ 8\<close> or more; an INTEGER column holds 32 bits.
\<close>

datatype error = PGRST116 | UniqueViolation | NumericOverflow | StorageError

definition numeric_10_2 :: "rat \<Rightarrow> error + rat" where
  "numeric_10_2 v =
     (let r = (if 0 \<le> v then of_int \<lfloor>v * 100 + 1 / 2\<rfloor> else - of_int \<lfloor>- v * 100 + 1 / 2\<rfloor>) / 100
      in if 10 ^ 8 \<le> \<bar>r\<bar> then Inl NumericOverflow else Inr r)"

definition int4 :: "int \<Rightarrow> error + int" where
  "int4 n = (if - (2 ^ 31) \<le> n \<and> n < 2 ^ 31 then Inr n else Inl NumericOverflow)"

text \<open>
  A number on its way into a DECIMAL(10,2) column: a non-finite number is serialised as
  \<^verbatim>\<open>null\<close> and stored as NULL.
\<close>

fun store_decimal :: "jsnum \<Rightarrow> error + decimal" where
  "store_decimal (Num a) =
     (case numeric_10_2 (number_to_decimal a) of Inl err \<Rightarrow> Inl err | Inr v \<Rightarrow> Inr (Some v))"
| "store_decimal _ = Inr None"

subsection \<open>Tables\<close>

text \<open>
  The tables of the migration script, with the columns the service reads or writes. A
  column name that several tables share carries its table's prefix. The limits of a
  policy are taken to hold a number (the columns have defaults); a trusted contact's
  limit and a day's total may be NULL. Identifiers and users are numbered, dates are day
  numbers since the epoch, and timestamps are milliseconds since the epoch.
\<close>

type_synonym uuid = nat

record user_policy =
  p_user_id :: uuid
  auto_approve_limit :: rat
  daily_spending_limit :: rat
  weekly_spending_limit :: rat
  low_balance_alert_threshold :: rat
  auto_save_percentage :: rat

record trusted_contact =
  tc_user_id :: uuid
  tc_contact_id :: uuid
  tc_auto_approve_limit :: decimal

record daily_spending_row =
  ds_id :: uuid
  ds_user_id :: uuid
  ds_date :: int
  total_spent :: decimal
  transaction_count :: int

datatype alert_message = LowBalanceMessage jsnum jsnum | OtherMessage string

record alert =
  al_id :: uuid
  al_user_id :: uuid
  alert_type :: string
  title :: string
  message :: alert_message
  metadata :: "(string \<times> jsnum) list"
  is_read :: bool
  created_at :: int

record db =
  user_policies :: "user_policy list"
  trusted_contacts :: "trusted_contact list"
  daily_spending :: "daily_spending_row list"
  alerts :: "alert list"

text \<open>
  The schema's constraints are \<^verbatim>\<open>user_policies.user_id UNIQUE\<close>,
  \<^verbatim>\<open>trusted_contacts UNIQUE(user_id, contact_id)\<close> and
  \<^verbatim>\<open>daily_spending UNIQUE(user_id, date)\<close>. They are what the storage enforces:
  an insert that would break one comes back with an error and adds nothing.
\<close>

subsection \<open>Environment: clock and storage faults\<close>

text \<open>
  Each storage request of the service is one \<open>storage_op\<close>; \<open>fails\<close> says which requests
  come back with an error other than "no rows". \<open>now\<close> is the clock in milliseconds since
  the epoch (UTC). The server's time zone is given by the two offsets of the language
  definition, in milliseconds: \<open>localTZA_utc t\<close> is local time minus UTC at the instant
  \<open>t\<close>, and \<open>localTZA_local t\<close> is the offset used to turn the local time value \<open>t\<close>
  back into an instant; with daylight saving both vary with \<open>t\<close>. The database's clock
  and session time zone are taken to be the server's \<open>now\<close> and UTC.
\<close>

datatype storage_op =
    SelectPolicy | InsertPolicy
  | SelectTrusted | InsertTrusted
  | SelectTodaySpending | SelectWeekSpending
  | SelectExistingSpending | UpdateSpending | InsertSpending
  | SelectExistingAlert | InsertAlert
  | SelectDailyData | SelectTxData

record env =
  now :: int
  localTZA_utc :: "int \<Rightarrow> int"
  localTZA_local :: "int \<Rightarrow> int"
  fails :: "storage_op \<Rightarrow> bool"

text \<open>\<^verbatim>\<open>.single()\<close>: exactly one row, else the error PGRST116 and no data.\<close>

fun single :: "'a list \<Rightarrow> error + 'a" where
  "single [r] = Inr r"
| "single _ = Inl PGRST116"

definition select_single :: "env \<Rightarrow> storage_op \<Rightarrow> 'a list \<Rightarrow> error + 'a" where
  "select_single e opn rows = (if fails e opn then Inl StorageError else single rows)"

definition select_rows :: "env \<Rightarrow> storage_op \<Rightarrow> 'a list \<Rightarrow> error + 'a list" where
  "select_rows e opn rows = (if fails e opn then Inl StorageError else Inr rows)"

definition fresh_id :: "uuid list \<Rightarrow> uuid" where
  "fresh_id ids = Suc (fold max ids 0)"

definition MS_PER_DAY :: int where
  "MS_PER_DAY = 86400000"

text \<open>\<^verbatim>\<open>new Date().toISOString().split('T')[0]\<close>: the UTC date, as a day number.\<close>

definition toISODate :: "int \<Rightarrow> int" where
  "toISODate ms = ms div MS_PER_DAY"

definition today :: "env \<Rightarrow> int" where
  "today e = toISODate (now e)"


subsection \<open>Policies\<close>

definition default_policy :: "uuid \<Rightarrow> user_policy" where
  "default_policy userId =
     \<lparr>p_user_id = userId, auto_approve_limit = 5, daily_spending_limit = 100,
      weekly_spending_limit = 500, low_balance_alert_threshold = 10,
      auto_save_percentage = 0\<rparr>"

definition insert_policy :: "env \<Rightarrow> db \<Rightarrow> uuid \<Rightarrow> error + (db \<times> user_policy)" where
  "insert_policy e d userId =
     (if fails e InsertPolicy then Inl StorageError
      else if userId \<in> set (map p_user_id (user_policies d)) then Inl UniqueViolation
      else Inr (d\<lparr>user_policies := user_policies d @ [default_policy userId]\<rparr>,
                default_policy userId))"

definition getUserPolicy :: "env \<Rightarrow> db \<Rightarrow> uuid \<Rightarrow> error + (db \<times> user_policy)" where
  "getUserPolicy e d userId =
     (case select_single e SelectPolicy
             (filter (\<lambda>p. p_user_id p = userId) (user_policies d)) of
        Inr policy \<Rightarrow> Inr (d, policy)
      | Inl PGRST116 \<Rightarrow> insert_policy e d userId
      | Inl err \<Rightarrow> Inl err)"

subsection \<open>Trust registry\<close>

definition trusted_rows :: "db \<Rightarrow> uuid \<Rightarrow> uuid \<Rightarrow> trusted_contact list" where
  "trusted_rows d userId contactId =
     filter (\<lambda>t. tc_user_id t = userId \<and> tc_contact_id t = contactId) (trusted_contacts d)"

text \<open>Both "no rows" and every other error end in \<^verbatim>\<open>null\<close>.\<close>

definition isTrustedContact :: "env \<Rightarrow> db \<Rightarrow> uuid \<Rightarrow> uuid \<Rightarrow> trusted_contact option" where
  "isTrustedContact e d userId contactId =
     (case select_single e SelectTrusted (trusted_rows d userId contactId) of
        Inl PGRST116 \<Rightarrow> None
      | Inl err \<Rightarrow> None
      | Inr data \<Rightarrow> Some data)"


subsection \<open>Budget ledger: reads\<close>

definition getTodaySpending :: "env \<Rightarrow> db \<Rightarrow> uuid \<Rightarrow> jsnum" where
  "getTodaySpending e d userId =
     (case select_single e SelectTodaySpending
             (filter (\<lambda>r. ds_user_id r = userId \<and> ds_date r = today e) (daily_spending d)) of
        Inl PGRST116 \<Rightarrow> Num 0
      | Inl err \<Rightarrow> Num 0
      | Inr data \<Rightarrow> parseFloat_or_0 (total_spent data))"

text \<open>
  \<^verbatim>\<open>setDate\<close> on a date: the local time value is moved by whole days, keeping the
  local time of day, and turned back into an instant with the offset in force there.
\<close>

definition LocalTime :: "env \<Rightarrow> int \<Rightarrow> int" where
  "LocalTime e t = t + localTZA_utc e t"

definition UTC :: "env \<Rightarrow> int \<Rightarrow> int" where
  "UTC e t = t - localTZA_local e t"

definition move_days :: "env \<Rightarrow> int \<Rightarrow> int \<Rightarrow> int" where
  "move_days e t days = UTC e (LocalTime e t + days * MS_PER_DAY)"

text \<open>
  The start of the week: \<^verbatim>\<open>getDay\<close> and \<^verbatim>\<open>getDate\<close> read the local date,
  \<^verbatim>\<open>setDate\<close> moves it to the local Monday, and \<^verbatim>\<open>toISOString\<close> prints the UTC
  date of the moved instant. Day 0 of the epoch is a Thursday, so the weekday (Sunday =
  0) of local day \<open>L\<close> is \<open>(L + 4) mod 7\<close>.
\<close>

definition weekStart :: "env \<Rightarrow> int" where
  "weekStart e =
     (let localDay = LocalTime e (now e) div MS_PER_DAY;
          dayOfWeek = (localDay + 4) mod 7;
          shift = - dayOfWeek + (if dayOfWeek = 0 then - 6 else 1)
      in toISODate (move_days e (now e) shift))"

definition week_rows :: "env \<Rightarrow> db \<Rightarrow> uuid \<Rightarrow> daily_spending_row list" where
  "week_rows e d userId =
     filter (\<lambda>r. ds_user_id r = userId \<and> weekStart e \<le> ds_date r) (daily_spending d)"

text \<open>\<^verbatim>\<open>data.reduce((sum, d) => sum + parseFloat(d.total_spent || 0), 0)\<close>\<close>

definition sum_total_spent :: "daily_spending_row list \<Rightarrow> jsnum" where
  "sum_total_spent rows = foldl (\<lambda>sum r. js_add sum (parseFloat_or_0 (total_spent r))) (Num 0) rows"

definition getWeekSpending :: "env \<Rightarrow> db \<Rightarrow> uuid \<Rightarrow> jsnum" where
  "getWeekSpending e d userId =
     (case select_rows e SelectWeekSpending (week_rows e d userId) of
        Inl err \<Rightarrow> Num 0
      | Inr data \<Rightarrow> sum_total_spent data)"

subsection \<open>Approval decision\<close>

datatype reason =
    NoReason
  | ExceedDailyLimit jsnum jsnum
  | ExceedWeeklyLimit jsnum jsnum
  | NotTrusted
  | WithinLimit jsnum jsnum
  | ExceedsAutoApproveLimit jsnum jsnum
  | CouldNotVerify

record budget_status =
  todaySpent :: jsnum
  weekSpent :: jsnum
  dailyLimit :: jsnum
  weeklyLimit :: jsnum
  remainingToday :: jsnum
  remainingWeek :: jsnum

record approval =
  canAutoApprove :: bool
  requiresConfirmation :: bool
  reason :: reason
  budgetStatus :: "budget_status option"
  budgetExceeded :: "string option"

text \<open>
  \<^verbatim>\<open>trustedContact.auto_approve_limit || policy.auto_approve_limit\<close>: the contact's
  own limit when it is truthy, else the policy's.
\<close>

definition effectiveLimit :: "trusted_contact \<Rightarrow> user_policy \<Rightarrow> jsnum" where
  "effectiveLimit trustedContact policy =
     (case tc_auto_approve_limit trustedContact of
        Some l \<Rightarrow> if truthy (fl l) then fl l else fl (auto_approve_limit policy)
      | None \<Rightarrow> fl (auto_approve_limit policy))"

text \<open>The decision logic of \<^verbatim>\<open>checkAutoApproval\<close>, after its four reads.\<close>

definition decide ::
  "user_policy \<Rightarrow> trusted_contact option \<Rightarrow> jsnum \<Rightarrow> jsnum \<Rightarrow> jsnum \<Rightarrow> approval" where
  "decide policy trustedContact todaySpent' weekSpent' amountNum =
     (let result = \<lparr>canAutoApprove = False, requiresConfirmation = True, reason = NoReason,
            budgetStatus = Some
              \<lparr>todaySpent = todaySpent', weekSpent = weekSpent',
               dailyLimit = fl (daily_spending_limit policy),
               weeklyLimit = fl (weekly_spending_limit policy),
               remainingToday = js_sub (fl (daily_spending_limit policy)) todaySpent',
               remainingWeek = js_sub (fl (weekly_spending_limit policy)) weekSpent'\<rparr>,
            budgetExceeded = None\<rparr>
      in if js_gt (js_add todaySpent' amountNum) (fl (daily_spending_limit policy))
         then result\<lparr>reason := ExceedDailyLimit (fl (daily_spending_limit policy)) todaySpent',
                     budgetExceeded := Some ''daily''\<rparr>
         else if js_gt (js_add weekSpent' amountNum) (fl (weekly_spending_limit policy))
         then result\<lparr>reason := ExceedWeeklyLimit (fl (weekly_spending_limit policy)) weekSpent',
                     budgetExceeded := Some ''weekly''\<rparr>
         else case trustedContact of
           None \<Rightarrow> result\<lparr>reason := NotTrusted\<rparr>
         | Some tc \<Rightarrow>
             if js_le amountNum (effectiveLimit tc policy)
             then result\<lparr>canAutoApprove := True, requiresConfirmation := False,
                         reason := WithinLimit amountNum (effectiveLimit tc policy)\<rparr>
             else result\<lparr>reason := ExceedsAutoApproveLimit amountNum (effectiveLimit tc policy)\<rparr>)"

definition could_not_verify :: approval where
  "could_not_verify =
     \<lparr>canAutoApprove = False, requiresConfirmation = True, reason = CouldNotVerify,
      budgetStatus = None, budgetExceeded = None\<rparr>"

definition checkAutoApproval :: "env \<Rightarrow> db \<Rightarrow> uuid \<Rightarrow> uuid \<Rightarrow> jsnum \<Rightarrow> db \<times> approval" where
  "checkAutoApproval e d userId contactId amountNum =
     (case getUserPolicy e d userId of
        Inl err \<Rightarrow> (d, could_not_verify)
      | Inr (d', policy) \<Rightarrow>
          (d', decide policy (isTrustedContact e d' userId contactId)
                 (getTodaySpending e d' userId) (getWeekSpending e d' userId) amountNum))"

text \<open>
  How the \<^verbatim>\<open>/send\<close> route reads the result: a set \<^verbatim>\<open>budgetExceeded\<close> blocks the
  transfer, otherwise \<^verbatim>\<open>requiresConfirmation\<close> asks the user, otherwise it proceeds.
\<close>

datatype decision = Blocked | RequiresConfirmation | AutoApproved

definition classify :: "approval \<Rightarrow> decision" where
  "classify a =
     (if budgetExceeded a \<noteq> None then Blocked
      else if requiresConfirmation a then RequiresConfirmation
      else AutoApproved)"

subsection \<open>Budget ledger: recording a spend\<close>

text \<open>
  \<^verbatim>\<open>updateDailySpending\<close> reads the day's record, awaits the answer, and then writes
  either an update of that record (by its id) or a fresh one. Neither request's
  \<^verbatim>\<open>error\<close> is looked at, and the \<^verbatim>\<open>catch\<close> block only logs: a write that the
  storage refuses (a fault, a duplicate key, a value its column does not accept) leaves
  the table as it was. The two requests are the two definitions below, so that calls
  can be interleaved at the await between them.
\<close>

definition select_existing :: "env \<Rightarrow> db \<Rightarrow> uuid \<Rightarrow> daily_spending_row option" where
  "select_existing e d userId =
     (case select_single e SelectExistingSpending
             (filter (\<lambda>r. ds_user_id r = userId \<and> ds_date r = today e) (daily_spending d)) of
        Inl err \<Rightarrow> None
      | Inr existing \<Rightarrow> Some existing)"

definition write_spending ::
  "env \<Rightarrow> db \<Rightarrow> uuid \<Rightarrow> jsnum \<Rightarrow> daily_spending_row option \<Rightarrow> db" where
  "write_spending e d userId amountNum existing =
     (case existing of
        Some ex \<Rightarrow>
          if fails e UpdateSpending then d
          else (case (store_decimal (js_add (parseFloat (total_spent ex)) amountNum),
                      int4 (transaction_count ex + 1)) of
                  (Inr newTotal, Inr newCount) \<Rightarrow>
                    d\<lparr>daily_spending :=
                        map (\<lambda>r. if ds_id r = ds_id ex
                                  then r\<lparr>total_spent := newTotal, transaction_count := newCount\<rparr>
                                  else r)
                            (daily_spending d)\<rparr>
                | _ \<Rightarrow> d)
      | None \<Rightarrow>
          if fails e InsertSpending then d
          else if (userId, today e) \<in> set (map (\<lambda>r. (ds_user_id r, ds_date r)) (daily_spending d))
          then d
          else (case store_decimal amountNum of
                  Inr newTotal \<Rightarrow>
                    d\<lparr>daily_spending := daily_spending d @
                        [\<lparr>ds_id = fresh_id (map ds_id (daily_spending d)), ds_user_id = userId,
                          ds_date = today e, total_spent = newTotal, transaction_count = 1\<rparr>]\<rparr>
                | Inl err \<Rightarrow> d))"

text \<open>The outcome of a call is a value: \<open>Inl\<close> would be an exception reaching the caller.\<close>

definition updateDailySpending :: "env \<Rightarrow> db \<Rightarrow> uuid \<Rightarrow> jsnum \<Rightarrow> error + db" where
  "updateDailySpending e d userId amountNum =
     Inr (write_spending e d userId amountNum (select_existing e d userId))"

text \<open>
  Concurrent calls for one user: each call is before its read, between its read and its
  write (holding what it read), or done; a schedule names the call that moves next.
\<close>

datatype call_state = Pending jsnum | Selected jsnum "daily_spending_row option" | Finished

fun step_call :: "env \<Rightarrow> uuid \<Rightarrow> db \<Rightarrow> call_state \<Rightarrow> db \<times> call_state" where
  "step_call e userId d (Pending amountNum) =
     (d, Selected amountNum (select_existing e d userId))"
| "step_call e userId d (Selected amountNum existing) =
     (write_spending e d userId amountNum existing, Finished)"
| "step_call e userId d Finished = (d, Finished)"

definition step :: "env \<Rightarrow> uuid \<Rightarrow> nat \<Rightarrow> db \<times> call_state list \<Rightarrow> db \<times> call_state list" where
  "step e userId i s =
     (if i < length (snd s)
      then (fst (step_call e userId (fst s) (snd s ! i)),
            (snd s)[i := snd (step_call e userId (fst s) (snd s ! i))])
      else s)"

definition run_schedule ::
  "env \<Rightarrow> uuid \<Rightarrow> nat list \<Rightarrow> db \<times> call_state list \<Rightarrow> db \<times> call_state list" where
  "run_schedule e userId schedule s = fold (step e userId) schedule s"

subsection \<open>Alerts\<close>

definition createAlert ::
  "env \<Rightarrow> db \<Rightarrow> uuid \<Rightarrow> string \<Rightarrow> string \<Rightarrow> alert_message \<Rightarrow> (string \<times> jsnum) list
     \<Rightarrow> error + (db \<times> alert)" where
  "createAlert e d userId alertType title' message' metadata' =
     (let row = \<lparr>al_id = fresh_id (map al_id (alerts d)), al_user_id = userId,
                 alert_type = alertType, title = title', message = message',
                 metadata = metadata', is_read = False, created_at = now e\<rparr>
      in if fails e InsertAlert then Inl StorageError
         else Inr (d\<lparr>alerts := alerts d @ [row]\<rparr>, row))"

text \<open>The low-balance alerts of a user created on or after a day's midnight.\<close>

definition low_balance_since :: "db \<Rightarrow> uuid \<Rightarrow> int \<Rightarrow> alert list" where
  "low_balance_since d userId day =
     filter (\<lambda>a. al_user_id a = userId \<and> alert_type a = ''low_balance''
                 \<and> day * MS_PER_DAY \<le> created_at a) (alerts d)"

definition checkLowBalanceAlert :: "env \<Rightarrow> db \<Rightarrow> uuid \<Rightarrow> jsnum \<Rightarrow> db \<times> alert option" where
  "checkLowBalanceAlert e d userId balance =
     (case getUserPolicy e d userId of
        Inl err \<Rightarrow> (d, None)
      | Inr (d', policy) \<Rightarrow>
          (let threshold = parseFloat (Some (low_balance_alert_threshold policy))
           in if js_le balance threshold
              then (case select_single e SelectExistingAlert
                           (low_balance_since d' userId (today e)) of
                      Inr existingAlert \<Rightarrow> (d', None)
                    | Inl err \<Rightarrow>
                        (case createAlert e d' userId ''low_balance'' ''Low Balance Alert''
                                (LowBalanceMessage balance threshold)
                                [(''balance'', balance), (''threshold'', threshold)] of
                           Inl err' \<Rightarrow> (d', None)
                         | Inr (d'', a) \<Rightarrow> (d'', Some a)))
              else (d', None)))"

text \<open>Consecutive calls, each in its own environment and with its own balance.\<close>

fun checkLowBalanceAlert_calls ::
  "db \<Rightarrow> uuid \<Rightarrow> (env \<times> jsnum) list \<Rightarrow> db \<times> alert option list" where
  "checkLowBalanceAlert_calls d userId [] = (d, [])"
| "checkLowBalanceAlert_calls d userId ((e, balance) # calls) =
     (case checkLowBalanceAlert e d userId balance of
        (d', r) \<Rightarrow>
          (case checkLowBalanceAlert_calls d' userId calls of
             (d'', rs) \<Rightarrow> (d'', r # rs)))"

subsection \<open>Spending summary\<close>

text \<open>
  Of the summary, the totals over the window and the two budget blocks are represented;
  the transaction query only by whether it fails (its rows feed \<^verbatim>\<open>topRecipients\<close>).
\<close>

record budget_block =
  limit :: jsnum
  spent :: jsnum
  remaining :: jsnum
  percentUsed :: jsnum

record summary =
  totalSpent :: jsnum
  totalTransactions :: int
  daily :: budget_block
  weekly :: budget_block

definition budget_block_of :: "rat \<Rightarrow> jsnum \<Rightarrow> budget_block" where
  "budget_block_of l s =
     \<lparr>limit = fl l, spent = s,
      remaining = Math_max (Num 0) (js_sub (fl l) s),
      percentUsed = Math_round (js_mul (js_div s (fl l)) (Num 100))\<rparr>"

definition getSpendingSummary :: "env \<Rightarrow> db \<Rightarrow> uuid \<Rightarrow> int \<Rightarrow> error + (db \<times> summary)" where
  "getSpendingSummary e d userId days =
     (let startDate = toISODate (move_days e (now e) (- days))
      in case select_rows e SelectDailyData
                (filter (\<lambda>r. ds_user_id r = userId \<and> startDate \<le> ds_date r) (daily_spending d)) of
           Inl dailyError \<Rightarrow> Inl dailyError
         | Inr dailyData \<Rightarrow>
             if fails e SelectTxData then Inl StorageError
             else case getUserPolicy e d userId of
                    Inl err \<Rightarrow> Inl err
                  | Inr (d', policy) \<Rightarrow>
                      Inr (d',
                        \<lparr>totalSpent = sum_total_spent dailyData,
                         totalTransactions = foldl (\<lambda>sum r. sum + transaction_count r) 0 dailyData,
                         daily = budget_block_of (daily_spending_limit policy)
                                   (getTodaySpending e d' userId),
                         weekly = budget_block_of (weekly_spending_limit policy)
                                    (getWeekSpending e d' userId)\<rparr>))"

subsection \<open>Notions of the specification\<close>

text \<open>
  The effective limit in the specification's words,
  \<^verbatim>\<open>TrustEntry.overrideLimit ?? PolicyConfig.autoApproveLimit\<close>: the override whenever
  one is present. It is compared with \<open>effectiveLimit\<close>, which follows the source.
\<close>

definition spec_effectiveLimit :: "trusted_contact \<Rightarrow> user_policy \<Rightarrow> jsnum" where
  "spec_effectiveLimit trustedContact policy =
     (case tc_auto_approve_limit trustedContact of
        Some l \<Rightarrow> fl l
      | None \<Rightarrow> fl (auto_approve_limit policy))"

text \<open>
  The week in the specification's words, to compare \<open>getWeekSpending\<close> with: the Monday
  starting the calendar week of a day (day 0 of the epoch is a Thursday, so day \<open>d\<close> lies
  \<open>(d + 3) mod 7\<close> days after its Monday), and the exact sum of \<open>totalSpent\<close> over a
  user's records dated from that Monday up to today, a null total counting as 0.
\<close>

definition spec_week_start :: "int \<Rightarrow> int" where
  "spec_week_start day = day - (day + 3) mod 7"

definition money :: "daily_spending_row \<Rightarrow> rat" where
  "money r = (case total_spent r of None \<Rightarrow> 0 | Some a \<Rightarrow> a)"

definition spec_week_rows :: "daily_spending_row list \<Rightarrow> uuid \<Rightarrow> int \<Rightarrow> daily_spending_row list" where
  "spec_week_rows rows userId day =
     filter (\<lambda>r. ds_user_id r = userId \<and> spec_week_start day \<le> ds_date r \<and> ds_date r \<le> day) rows"

definition spec_weekSpend :: "daily_spending_row list \<Rightarrow> uuid \<Rightarrow> int \<Rightarrow> rat" where
  "spec_weekSpend rows userId day = sum_list (map money (spec_week_rows rows userId day))"

text \<open>
  The sum the way JavaScript takes it: the totals become doubles and are added from the
  left, each partial sum rounded to a double.
\<close>

definition double_sum :: "rat list \<Rightarrow> jsnum" where
  "double_sum xs = foldl (\<lambda>sum a. js_add sum (fl a)) (Num 0) xs"

text \<open>The user's records dated on or after a day.\<close>

definition rows_from :: "daily_spending_row list \<Rightarrow> uuid \<Rightarrow> int \<Rightarrow> daily_spending_row list" where
  "rows_from rows userId day = filter (\<lambda>r. ds_user_id r = userId \<and> day \<le> ds_date r) rows"

text \<open>
  The low-balance threshold a successful policy read yields: that of the user's policy,
  or of the default policy created when the user has none.
\<close>

definition policy_threshold :: "db \<Rightarrow> uuid \<Rightarrow> rat" where
  "policy_threshold d userId =
     (case filter (\<lambda>p. p_user_id p = userId) (user_policies d) of
        [p] \<Rightarrow> low_balance_alert_threshold p
      | _ \<Rightarrow> low_balance_alert_threshold (default_policy userId))"

subsection \<open>Example states\<close>

text \<open>
  Wednesday 2026-01-14, 12:00 UTC (day 20467 of the epoch; the week began on Monday, day
  20465), on a server running in UTC with no storage faults.
\<close>

definition ex_env :: env where
  "ex_env =
     \<lparr>now = 1768392000000, localTZA_utc = (\<lambda>_. 0), localTZA_local = (\<lambda>_. 0),
      fails = (\<lambda>_. False)\<rparr>"

text \<open>
  User 1 has the default policy, has spent 90 today, and trusts contact 2 with a limit
  of 20, contact 3 with a limit of 0 and contact 4 with no limit of its own.
\<close>

definition ex_db :: db where
  "ex_db =
     \<lparr>user_policies = [default_policy 1],
      trusted_contacts =
        [\<lparr>tc_user_id = 1, tc_contact_id = 2, tc_auto_approve_limit = Some 20\<rparr>,
         \<lparr>tc_user_id = 1, tc_contact_id = 3, tc_auto_approve_limit = Some 0\<rparr>,
         \<lparr>tc_user_id = 1, tc_contact_id = 4, tc_auto_approve_limit = None\<rparr>],
      daily_spending =
        [\<lparr>ds_id = 1, ds_user_id = 1, ds_date = 20467, total_spent = Some 90,
          transaction_count = 3\<rparr>],
      alerts = []\<rparr>"

text \<open>The same state seen through a failing trust lookup, policy read or ledger read.\<close>

definition ex_env_trust_fault :: env where
  "ex_env_trust_fault = ex_env\<lparr>fails := (\<lambda>opn. opn = SelectTrusted)\<rparr>"

definition ex_env_policy_fault :: env where
  "ex_env_policy_fault = ex_env\<lparr>fails := (\<lambda>opn. opn = SelectPolicy)\<rparr>"

definition ex_env_ledger_fault :: env where
  "ex_env_ledger_fault =
     ex_env\<lparr>fails := (\<lambda>opn. opn = SelectTodaySpending \<or> opn = SelectWeekSpending)\<rparr>"

text \<open>A ledger whose write requests fail.\<close>

definition ex_env_write_fault :: env where
  "ex_env_write_fault =
     ex_env\<lparr>fails := (\<lambda>opn. opn = UpdateSpending \<or> opn = InsertSpending)\<rparr>"

text \<open>
  Limits configured as 0: user 1 has a daily limit of 0 and has spent 5 today; user 6 has
  both limits at 0 and no spending.
\<close>

definition ex_db_zero_limit :: db where
  "ex_db_zero_limit =
     \<lparr>user_policies =
        [(default_policy 1)\<lparr>daily_spending_limit := 0\<rparr>,
         (default_policy 6)\<lparr>daily_spending_limit := 0, weekly_spending_limit := 0\<rparr>],
      trusted_contacts = [],
      daily_spending =
        [\<lparr>ds_id = 1, ds_user_id = 1, ds_date = 20467, total_spent = Some 5,
          transaction_count = 1\<rparr>],
      alerts = []\<rparr>"

text \<open>
  A week of records for user 1 around Wednesday 2026-01-14: the Sunday before (day
  20464), Monday (20465), Tuesday with a null total (20466) and Wednesday (20467), and
  another user's Wednesday.
\<close>

definition ex_db_week :: db where
  "ex_db_week =
     \<lparr>user_policies = [default_policy 1],
      trusted_contacts = [],
      daily_spending =
        [\<lparr>ds_id = 1, ds_user_id = 1, ds_date = 20464, total_spent = Some 40,
          transaction_count = 2\<rparr>,
         \<lparr>ds_id = 2, ds_user_id = 1, ds_date = 20465, total_spent = Some (25 / 2),
          transaction_count = 1\<rparr>,
         \<lparr>ds_id = 3, ds_user_id = 1, ds_date = 20466, total_spent = None,
          transaction_count = 1\<rparr>,
         \<lparr>ds_id = 4, ds_user_id = 1, ds_date = 20467, total_spent = Some 30,
          transaction_count = 2\<rparr>,
         \<lparr>ds_id = 5, ds_user_id = 2, ds_date = 20467, total_spent = Some 7,
          transaction_count = 1\<rparr>],
      alerts = []\<rparr>"

text \<open>
  Three small days for user 1: 0.03 on Monday, 0.09 on Tuesday and 0.05 on Wednesday
  2026-01-14.
\<close>

definition ex_db_cents :: db where
  "ex_db_cents =
     \<lparr>user_policies = [default_policy 1],
      trusted_contacts = [],
      daily_spending =
        [\<lparr>ds_id = 1, ds_user_id = 1, ds_date = 20465, total_spent = Some (3 / 100),
          transaction_count = 1\<rparr>,
         \<lparr>ds_id = 2, ds_user_id = 1, ds_date = 20466, total_spent = Some (9 / 100),
          transaction_count = 1\<rparr>,
         \<lparr>ds_id = 3, ds_user_id = 1, ds_date = 20467, total_spent = Some (5 / 100),
          transaction_count = 1\<rparr>],
      alerts = []\<rparr>"

text \<open>
  Wednesday 2026-01-14, 20:00 UTC on a server nine hours ahead of UTC, where it is
  Thursday, 05:00.
\<close>

definition ex_env_utc9 :: env where
  "ex_env_utc9 =
     \<lparr>now = 1768420800000, localTZA_utc = (\<lambda>_. 32400000), localTZA_local = (\<lambda>_. 32400000),
      fails = (\<lambda>_. False)\<rparr>"

text \<open>
  Five checks on Wednesday 2026-01-14 between 00:00 and 23:59 UTC, with balances from
  9 down to 2; and the same five checks where the second one's look for an existing
  alert comes back with a storage error.
\<close>

definition ex_calls :: "(env \<times> jsnum) list" where
  "ex_calls =
     [(ex_env\<lparr>now := 1768348800000\<rparr>, Num 9), (ex_env, Num 8),
      (ex_env\<lparr>now := 1768392000001\<rparr>, Num 10), (ex_env\<lparr>now := 1768400000000\<rparr>, Num 3),
      (ex_env\<lparr>now := 1768435199999\<rparr>, Num 2)]"

definition ex_calls_one_fault :: "(env \<times> jsnum) list" where
  "ex_calls_one_fault =
     [(ex_env\<lparr>now := 1768348800000\<rparr>, Num 9),
      (ex_env\<lparr>fails := (\<lambda>opn. opn = SelectExistingAlert)\<rparr>, Num 8),
      (ex_env\<lparr>now := 1768392000001\<rparr>, Num 10), (ex_env\<lparr>now := 1768400000000\<rparr>, Num 3),
      (ex_env\<lparr>now := 1768435199999\<rparr>, Num 2)]"

text \<open>
  The state of user 1 with two low-balance alerts already raised on Wednesday 2026-01-14,
  at 00:00 and at 12:00 UTC.
\<close>

definition ex_db_two_alerts :: db where
  "ex_db_two_alerts =
     ex_db\<lparr>alerts :=
       [\<lparr>al_id = 1, al_user_id = 1, alert_type = ''low_balance'', title = ''Low Balance Alert'',
         message = LowBalanceMessage (Num 9) (Num 10),
         metadata = [(''balance'', Num 9), (''threshold'', Num 10)],
         is_read = False, created_at = 1768348800000\<rparr>,
        \<lparr>al_id = 2, al_user_id = 1, alert_type = ''low_balance'', title = ''Low Balance Alert'',
         message = LowBalanceMessage (Num 8) (Num 10),
         metadata = [(''balance'', Num 8), (''threshold'', Num 10)],
         is_read = False, created_at = 1768392000000\<rparr>]\<rparr>"

section \<open>Properties\<close>

subsection \<open>Rounding to a double is monotone\<close>

lemma rhe_of_int: "round_half_even (of_int n) = n"
  by (simp add: round_half_even_def)

lemma rhe_mono:
  assumes "x \<le> y"
  shows "round_half_even x \<le> round_half_even y"
proof (cases "\<lfloor>x\<rfloor> = \<lfloor>y\<rfloor>")
  case True
  with assms show ?thesis
    by (auto simp: round_half_even_def Let_def)
next
  case False
  with assms have "\<lfloor>x\<rfloor> < \<lfloor>y\<rfloor>" using floor_mono [of x y] by linarith
  moreover have "round_half_even x \<le> \<lfloor>x\<rfloor> + 1"
    by (auto simp: round_half_even_def Let_def)
  moreover have "\<lfloor>y\<rfloor> \<le> round_half_even y"
    by (auto simp: round_half_even_def Let_def)
  ultimately show ?thesis by linarith
qed

lemma rhe_neg: "round_half_even (- x) = - round_half_even x"
proof (cases "x = of_int \<lfloor>x\<rfloor>")
  case True
  then obtain n where "x = of_int n" ..
  then show ?thesis
    using rhe_of_int [of n] rhe_of_int [of "- n"] by simp
next
  case False
  then have f: "\<lfloor>- x\<rfloor> = - \<lfloor>x\<rfloor> - 1"
    by (metis (no_types) ceiling_def floor_of_int le_floor_iff of_int_floor_le order_antisym ceiling_altdef add.commute diff_minus_eq_add minus_add_cancel minus_diff_eq minus_minus uminus_add_conv_diff)
  show ?thesis
    unfolding round_half_even_def Let_def f
    by (auto simp: algebra_simps; linarith?)
qed

lemma bitlen_powi:
  assumes "0 < n"
  shows "(2::rat) powi (bitlen n - 1) \<le> of_int n \<and> of_int n < (2::rat) powi bitlen n"
proof -
  from assms have b: "1 \<le> bitlen n"
    using bitlen_eq_zero_iff [of n] bitlen_nonneg [of n] by linarith
  from bitlen_bounds [OF assms]
  have "(2::int) ^ nat (bitlen n - 1) \<le> n" and "n < (2::int) ^ nat (bitlen n)" by simp_all
  then have "(of_int ((2::int) ^ nat (bitlen n - 1)) :: rat) \<le> of_int n"
    and "(of_int n :: rat) < of_int ((2::int) ^ nat (bitlen n))"
    by (simp_all only: of_int_le_iff of_int_less_iff)
  with b show ?thesis by (simp add: power_int_def)
qed

lemma ilog2_bounds:
  assumes "0 < x"
  shows "2 powi ilog2 x \<le> x \<and> x < 2 powi (ilog2 x + 1)"
proof -
  obtain p q where pq: "quotient_of x = (p, q)" by (cases "quotient_of x")
  then have q: "0 < q" and x: "x = of_int p / of_int q"
    by (simp_all add: quotient_of_denom_pos quotient_of_div)
  with assms have p: "0 < p" by (simp add: zero_less_divide_iff)
  define k where "k = bitlen p - bitlen q"
  note bp = bitlen_powi [OF p] and bq = bitlen_powi [OF q]
  have qpos: "(0::rat) < of_int q" using q by simp
  have up: "x < 2 powi (k + 1)"
  proof -
    have "of_int p < (2::rat) powi bitlen p" using bp by simp
    also have "\<dots> = 2 powi (k + 1) * 2 powi (bitlen q - 1)"
      by (simp add: k_def power_int_add [symmetric])
    also have "\<dots> \<le> 2 powi (k + 1) * of_int q"
      using bq by (intro mult_left_mono) simp_all
    finally show ?thesis using qpos by (simp add: x pos_divide_less_eq)
  qed
  have lo: "2 powi (k - 1) < x"
  proof -
    have "2 powi (k - 1) * of_int q < (2::rat) powi (k - 1) * 2 powi bitlen q"
      using bq by (intro mult_strict_left_mono) simp_all
    also have "\<dots> = 2 powi (bitlen p - 1)"
      by (simp add: k_def power_int_add [symmetric])
    also have "\<dots> \<le> of_int p" using bp by simp
    finally show ?thesis using qpos by (simp add: x pos_less_divide_eq)
  qed
  have il: "ilog2 x = (if 2 powi k \<le> x then k else k - 1)"
    by (simp add: ilog2_def pq k_def Let_def)
  show ?thesis
  proof (cases "2 powi k \<le> x")
    case True
    with il up show ?thesis by simp
  next
    case False
    with il lo show ?thesis by simp
  qed
qed

lemma powi_less_exp: "(2::rat) powi m < 2 powi n \<Longrightarrow> m < n"
  by (rule ccontr) (simp add: not_less power_int_increasing leD)

lemma binade_upper: "0 < x \<Longrightarrow> x < 2 powi (binade x + 1)"
proof -
  assume x: "0 < x"
  then have "x < 2 powi (ilog2 x + 1)" using ilog2_bounds by simp
  also have "\<dots> \<le> 2 powi (binade x + 1)"
    using x by (intro power_int_increasing) (simp_all add: binade_def)
  finally show ?thesis .
qed

lemma binade_lower: "0 < x \<Longrightarrow> - 1022 < binade x \<Longrightarrow> 2 powi binade x \<le> x"
  using ilog2_bounds [of x] by (simp add: binade_def max_def split: if_splits)

lemma binade_mono:
  assumes "0 < a" and "a \<le> b"
  shows "binade a \<le> binade b"
proof -
  from assms have b: "0 < b" by simp
  have "2 powi ilog2 a \<le> a" using ilog2_bounds [OF assms(1)] by simp
  also note assms(2)
  also have "b < 2 powi (ilog2 b + 1)" using ilog2_bounds [OF b] by simp
  finally have "ilog2 a < ilog2 b + 1" by (rule powi_less_exp)
  with assms b show ?thesis by (simp add: binade_def)
qed

lemma mantissa_upper:
  assumes "0 < x"
  shows "mantissa x \<le> 2 ^ 53"
proof -
  have "x < 2 powi (binade x + 1)" by (rule binade_upper [OF assms])
  also have "\<dots> = 2 ^ 53 * 2 powi (binade x - 52)"
    using power_int_add [of "2::rat" 53 "binade x - 52"] by (simp add: add.commute)
  finally have "x / 2 powi (binade x - 52) \<le> of_int (2 ^ 53)"
    by (simp add: pos_divide_le_eq)
  from rhe_mono [OF this] show ?thesis
    unfolding mantissa_def rhe_of_int .
qed

lemma mantissa_nonneg:
  assumes "0 < x"
  shows "0 \<le> mantissa x"
proof -
  from assms have "of_int 0 \<le> x / 2 powi (binade x - 52)" by simp
  from rhe_mono [OF this] show ?thesis
    unfolding mantissa_def rhe_of_int .
qed

lemma mantissa_lower:
  assumes "0 < x" and "2 powi binade x \<le> x"
  shows "2 ^ 52 \<le> mantissa x"
proof -
  have "2 ^ 52 * 2 powi (binade x - 52) = (2::rat) powi binade x"
    using power_int_add [of "2::rat" 52 "binade x - 52"] by simp
  with assms(2) have "of_int (2 ^ 52) \<le> x / 2 powi (binade x - 52)"
    by (simp add: pos_le_divide_eq)
  from rhe_mono [OF this] show ?thesis
    unfolding mantissa_def rhe_of_int .
qed

lemma fl_pos_cases:
  assumes "0 < x"
  shows "fl x = PosInfinity
       \<or> (fl x = Num (of_int (mantissa x) * 2 powi (binade x - 52))
          \<and> binade x \<le> 1023 \<and> \<not> (binade x = 1023 \<and> mantissa x = 2 ^ 53))"
  using assms mantissa_nonneg [OF assms] by (auto simp: fl_def)

lemma fl_mono_pos:
  assumes "0 < a" and "a \<le> b"
  shows "\<not> js_lt (fl b) (fl a)"
proof -
  from assms have b: "0 < b" by simp
  define qa where "qa = (2::rat) powi (binade a - 52)"
  define qb where "qb = (2::rat) powi (binade b - 52)"
  have qpos: "0 < qa" "0 < qb" by (simp_all add: qa_def qb_def)
  from fl_pos_cases [OF b] show ?thesis
  proof
    assume "fl b = PosInfinity"
    then show ?thesis by (cases "fl a") simp_all
  next
    assume "fl b = Num (of_int (mantissa b) * 2 powi (binade b - 52))
          \<and> binade b \<le> 1023 \<and> \<not> (binade b = 1023 \<and> mantissa b = 2 ^ 53)"
    then have fb: "fl b = Num (of_int (mantissa b) * qb)" and eb: "binade b \<le> 1023"
      and nb: "\<not> (binade b = 1023 \<and> mantissa b = 2 ^ 53)"
      by (simp_all add: qb_def)
    note le = binade_mono [OF assms]
    show ?thesis
    proof (cases "binade a = binade b")
      case True
      then have q: "qa = qb" by (simp add: qa_def qb_def)
      from assms(2) qpos have "a / qb \<le> b / qb" by (simp add: divide_right_mono)
      from rhe_mono [OF this] True have m: "mantissa a \<le> mantissa b"
        by (simp add: mantissa_def qb_def)
      with mantissa_upper [OF b] nb True
      have "\<not> (binade a = 1023 \<and> mantissa a = 2 ^ 53)" by auto
      with fl_pos_cases [OF assms(1)] eb True
      have fa: "fl a = Num (of_int (mantissa a) * qb)"
        using mantissa_nonneg [OF assms(1)] assms(1) by (auto simp: fl_def qb_def)
      from m qpos have "of_int (mantissa a) * qb \<le> of_int (mantissa b) * qb"
        by (simp add: mult_right_mono)
      with fa fb show ?thesis by simp
    next
      case False
      with le have lt: "binade a < binade b" by simp
      have "- 1022 \<le> binade a" by (simp add: binade_def)
      with lt have "- 1022 < binade b" by simp
      from mantissa_lower [OF b binade_lower [OF b this]]
      have "(2::rat) ^ 52 \<le> of_int (mantissa b)"
        by (metis of_int_le_iff of_int_numeral of_int_power)
      with qpos have "2 ^ 52 * qb \<le> of_int (mantissa b) * qb"
        by (simp add: mult_right_mono)
      moreover have "2 ^ 52 * qb = (2::rat) powi binade b"
        using power_int_add [of "2::rat" 52 "binade b - 52"] by (simp add: qb_def)
      ultimately have lb: "2 powi binade b \<le> of_int (mantissa b) * qb" by simp
      from mantissa_upper [OF assms(1)]
      have "of_int (mantissa a) \<le> (2::rat) ^ 53"
        by (metis of_int_le_iff of_int_numeral of_int_power)
      with qpos have "of_int (mantissa a) * qa \<le> 2 ^ 53 * qa"
        by (simp add: mult_right_mono)
      moreover have "2 ^ 53 * qa = (2::rat) powi (binade a + 1)"
        using power_int_add [of "2::rat" 53 "binade a - 52"] by (simp add: qa_def add.commute)
      moreover have "(2::rat) powi (binade a + 1) \<le> 2 powi binade b"
        using lt by (intro power_int_increasing) simp_all
      ultimately have ua: "of_int (mantissa a) * qa \<le> 2 powi binade b" by simp
      from lt eb have "binade a < 1023" by simp
      with assms(1) have fa: "fl a = Num (of_int (mantissa a) * qa)"
        by (simp add: fl_def qa_def)
      from ua lb fa fb show ?thesis by simp
    qed
  qed
qed

lemma fl_neg: "fl (- x) = js_neg (fl x)"
proof -
  have b: "binade (- x) = binade x" by (simp add: binade_def)
  have "- x / 2 powi (binade x - 52) = - (x / 2 powi (binade x - 52))" by simp
  then have m: "mantissa (- x) = - mantissa x"
    unfolding mantissa_def b by (simp only: rhe_neg)
  show ?thesis by (simp add: fl_def b m)
qed

lemma js_lt_neg: "js_lt (js_neg u) (js_neg v) = js_lt v u"
  by (cases u; cases v) simp_all

lemma fl_nonneg:
  assumes "0 \<le> x"
  shows "fl x = PosInfinity \<or> (\<exists>y. fl x = Num y \<and> 0 \<le> y)"
proof (cases "x = 0")
  case True
  then show ?thesis by (simp add: fl_def)
next
  case False
  with assms have x: "0 < x" by simp
  from fl_pos_cases [OF x] mantissa_nonneg [OF x] show ?thesis by auto
qed

lemma fl_nonpos:
  assumes "x \<le> 0"
  shows "fl x = NegInfinity \<or> (\<exists>y. fl x = Num y \<and> y \<le> 0)"
proof -
  from assms have "0 \<le> - x" by simp
  from fl_nonneg [OF this] have "js_neg (fl x) = PosInfinity \<or> (\<exists>y. js_neg (fl x) = Num y \<and> 0 \<le> y)"
    by (simp add: fl_neg)
  then show ?thesis by (cases "fl x") auto
qed

text \<open>Rounding keeps the order: a larger value never rounds to a smaller double.\<close>

lemma fl_mono:
  assumes "a \<le> b"
  shows "\<not> js_lt (fl b) (fl a)"
proof -
  consider "0 < a" | "a \<le> 0" "0 \<le> b" | "b < 0" by linarith
  then show ?thesis
  proof cases
    case 1
    then show ?thesis using assms by (rule fl_mono_pos)
  next
    case 2
    from fl_nonpos [OF 2(1)] fl_nonneg [OF 2(2)] show ?thesis by auto
  next
    case 3
    with assms have "0 < - b" and "- b \<le> - a" by simp_all
    from fl_mono_pos [OF this] show ?thesis by (simp add: fl_neg js_lt_neg)
  qed
qed

subsection \<open>Reading the policy leaves the other tables alone\<close>

lemma getUserPolicy_tables:
  assumes "getUserPolicy e d userId = Inr (d', policy)"
  shows "trusted_contacts d' = trusted_contacts d \<and> daily_spending d' = daily_spending d
       \<and> alerts d' = alerts d"
  using assms
  by (auto simp: getUserPolicy_def insert_policy_def select_single_def
           split: if_splits sum.splits error.splits)

lemma getUserPolicy_reads:
  assumes "getUserPolicy e d userId = Inr (d', policy)"
  shows "isTrustedContact e d' u c = isTrustedContact e d u c"
    and "getTodaySpending e d' u = getTodaySpending e d u"
    and "getWeekSpending e d' u = getWeekSpending e d u"
  using getUserPolicy_tables [OF assms]
  by (simp_all add: isTrustedContact_def trusted_rows_def getTodaySpending_def
        getWeekSpending_def week_rows_def)

lemma checkAutoApproval_decide:
  assumes "getUserPolicy e d userId = Inr (d', policy)"
  shows "checkAutoApproval e d userId contactId amountNum =
          (d', decide policy (isTrustedContact e d userId contactId)
                 (getTodaySpending e d userId) (getWeekSpending e d userId) amountNum)"
  using assms getUserPolicy_reads [OF assms]
  by (simp add: checkAutoApproval_def)

subsection \<open>The daily limit comes first\<close>



text \<open>
  The sum and the comparison are those of doubles. With 90 spent of 100, the amount
  10.000000000000002 (the double next above 10) adds up to exactly 100, which is not
  above the limit: the transfer is not blocked, and for the trusted contact with limit
  20 it is auto-approved.
\<close>

lemma daily_limit_sum_is_rounded:
  "fl (10 + 1 / 2 ^ 49) = Num (10 + 1 / 2 ^ 49)
   \<and> js_add (getTodaySpending ex_env ex_db 1) (Num (10 + 1 / 2 ^ 49)) = Num 100
   \<and> classify (snd (checkAutoApproval ex_env ex_db 1 2 (Num (10 + 1 / 2 ^ 49)))) = AutoApproved"
  by code_simp

subsection \<open>Storage failures during the decision\<close>

lemma getUserPolicy_fault:
  "fails e SelectPolicy \<Longrightarrow> getUserPolicy e d userId = Inl StorageError"
  by (simp add: getUserPolicy_def select_single_def)

lemma isTrustedContact_fault:
  "fails e SelectTrusted \<Longrightarrow> isTrustedContact e d userId contactId = None"
  by (simp add: isTrustedContact_def select_single_def)

text \<open>
  Claim C2, as stated, fails. A failing trust lookup is caught inside
  \<open>isTrustedContact\<close> and reads as "not trusted": for contact 2, whom user 1 trusts, the
  answer for an amount of 5 is the not-trusted reason instead of "could not verify", and
  for an amount of 15 the transfer is blocked by the daily limit.
\<close>

theorem trust_read_failure_counterexample:
  "fails ex_env_trust_fault SelectTrusted
   \<and> reason (snd (checkAutoApproval ex_env_trust_fault ex_db 1 2 (Num 5))) = NotTrusted
   \<and> reason (snd (checkAutoApproval ex_env_trust_fault ex_db 1 2 (Num 5))) \<noteq> CouldNotVerify
   \<and> classify (snd (checkAutoApproval ex_env_trust_fault ex_db 1 2 (Num 15))) = Blocked"
  by code_simp

text \<open>
  Claim C2, amended. When the policy cannot be read the result is
  \<open>RequiresConfirmation\<close> with the reason "could not verify policies". When the trust
  lookup fails the contact counts as not trusted: the result is \<open>Blocked\<close> if a budget
  limit would be exceeded and otherwise \<open>RequiresConfirmation\<close> with the reason
  not-trusted. In neither case is the transfer auto-approved.
\<close>

theorem storage_failure_never_auto_approves:
  "(getUserPolicy e d userId = Inl err \<longrightarrow>
      snd (checkAutoApproval e d userId contactId amountNum) = could_not_verify)
   \<and> (fails e SelectPolicy \<longrightarrow>
      classify (snd (checkAutoApproval e d userId contactId amountNum)) = RequiresConfirmation
      \<and> reason (snd (checkAutoApproval e d userId contactId amountNum)) = CouldNotVerify)
   \<and> (fails e SelectTrusted \<longrightarrow> getUserPolicy e d userId = Inr (d', policy) \<longrightarrow>
      (if js_gt (js_add (getTodaySpending e d userId) amountNum)
                (fl (daily_spending_limit policy))
          \<or> js_gt (js_add (getWeekSpending e d userId) amountNum)
                (fl (weekly_spending_limit policy))
       then classify (snd (checkAutoApproval e d userId contactId amountNum)) = Blocked
       else classify (snd (checkAutoApproval e d userId contactId amountNum)) = RequiresConfirmation
          \<and> reason (snd (checkAutoApproval e d userId contactId amountNum)) = NotTrusted))
   \<and> (fails e SelectPolicy \<or> fails e SelectTrusted \<longrightarrow>
      \<not> canAutoApprove (snd (checkAutoApproval e d userId contactId amountNum))
      \<and> classify (snd (checkAutoApproval e d userId contactId amountNum)) \<noteq> AutoApproved)"
proof (intro conjI impI)
  assume "getUserPolicy e d userId = Inl err"
  then show "snd (checkAutoApproval e d userId contactId amountNum) = could_not_verify"
    by (simp add: checkAutoApproval_def)
next
  assume "fails e SelectPolicy"
  then have r: "snd (checkAutoApproval e d userId contactId amountNum) = could_not_verify"
    by (simp add: checkAutoApproval_def getUserPolicy_fault)
  show "classify (snd (checkAutoApproval e d userId contactId amountNum)) = RequiresConfirmation"
    by (simp add: r could_not_verify_def classify_def)
  show "reason (snd (checkAutoApproval e d userId contactId amountNum)) = CouldNotVerify"
    by (simp add: r could_not_verify_def)
next
  assume f: "fails e SelectTrusted" and p: "getUserPolicy e d userId = Inr (d', policy)"
  show "if js_gt (js_add (getTodaySpending e d userId) amountNum)
                (fl (daily_spending_limit policy))
          \<or> js_gt (js_add (getWeekSpending e d userId) amountNum)
                (fl (weekly_spending_limit policy))
       then classify (snd (checkAutoApproval e d userId contactId amountNum)) = Blocked
       else classify (snd (checkAutoApproval e d userId contactId amountNum)) = RequiresConfirmation
          \<and> reason (snd (checkAutoApproval e d userId contactId amountNum)) = NotTrusted"
    by (simp add: checkAutoApproval_decide [OF p] isTrustedContact_fault [OF f]
          decide_def classify_def Let_def)
next
  assume f: "fails e SelectPolicy \<or> fails e SelectTrusted"
  have no_auto: "\<not> canAutoApprove (snd (checkAutoApproval e d userId contactId amountNum))
      \<and> classify (snd (checkAutoApproval e d userId contactId amountNum)) \<noteq> AutoApproved"
  proof (cases "getUserPolicy e d userId")
    case (Inl err')
    then show ?thesis by (simp add: checkAutoApproval_def could_not_verify_def classify_def)
  next
    case (Inr dp)
    obtain d1 p1 where dp: "dp = (d1, p1)" by (cases dp)
    from Inr f have t: "fails e SelectTrusted" by (auto simp: getUserPolicy_fault)
    from Inr dp have p: "getUserPolicy e d userId = Inr (d1, p1)" by simp
    show ?thesis
      by (simp add: checkAutoApproval_decide [OF p] isTrustedContact_fault [OF t]
            decide_def classify_def Let_def)
  qed
  from no_auto show "\<not> canAutoApprove (snd (checkAutoApproval e d userId contactId amountNum))"
    by simp
  from no_auto
  show "classify (snd (checkAutoApproval e d userId contactId amountNum)) \<noteq> AutoApproved"
    by simp
qed

theorem storage_failure_never_auto_approves_witness:
  "fails ex_env_policy_fault SelectPolicy
   \<and> getUserPolicy ex_env_policy_fault ex_db 1 = Inl StorageError
   \<and> snd (checkAutoApproval ex_env_policy_fault ex_db 1 2 (Num 5)) = could_not_verify
   \<and> reason (snd (checkAutoApproval ex_env_policy_fault ex_db 1 2 (Num 5))) = CouldNotVerify
   \<and> fails ex_env_trust_fault SelectTrusted
   \<and> getUserPolicy ex_env_trust_fault ex_db 1 = Inr (ex_db, default_policy 1)
   \<and> classify (snd (checkAutoApproval ex_env_trust_fault ex_db 1 2 (Num 5))) = RequiresConfirmation
   \<and> classify (snd (checkAutoApproval ex_env_trust_fault ex_db 1 2 (Num 5))) \<noteq> AutoApproved"
proof -
  have h1: "fails ex_env_policy_fault SelectPolicy" by code_simp
  have h2: "fails ex_env_trust_fault SelectTrusted" by code_simp
  have h3: "getUserPolicy ex_env_trust_fault ex_db 1 = Inr (ex_db, default_policy 1)"
    by code_simp
  have h4: "\<not> (js_gt (js_add (getTodaySpending ex_env_trust_fault ex_db 1) (Num 5))
                (fl (daily_spending_limit (default_policy 1)))
          \<or> js_gt (js_add (getWeekSpending ex_env_trust_fault ex_db 1) (Num 5))
                (fl (weekly_spending_limit (default_policy 1))))"
    by code_simp
  have h0: "getUserPolicy ex_env_policy_fault ex_db 1 = Inl StorageError" by code_simp
  note a = storage_failure_never_auto_approves
    [where e = ex_env_policy_fault and d = ex_db and userId = 1 and contactId = 2
       and amountNum = "Num 5" and err = StorageError]
  from a h0 have c0:
    "snd (checkAutoApproval ex_env_policy_fault ex_db 1 2 (Num 5)) = could_not_verify"
    by blast
  note b = storage_failure_never_auto_approves
    [where e = ex_env_trust_fault and d = ex_db and userId = 1 and contactId = 2
       and amountNum = "Num 5" and d' = ex_db and policy = "default_policy 1"]
  from a h1 have c1:
    "reason (snd (checkAutoApproval ex_env_policy_fault ex_db 1 2 (Num 5))) = CouldNotVerify"
    by blast
  from b h2 h3 h4 have c2:
    "classify (snd (checkAutoApproval ex_env_trust_fault ex_db 1 2 (Num 5))) = RequiresConfirmation"
    by simp
  from b h2 have c3:
    "classify (snd (checkAutoApproval ex_env_trust_fault ex_db 1 2 (Num 5))) \<noteq> AutoApproved"
    by blast
  from h0 h1 h2 h3 c0 c1 c2 c3 show ?thesis by blast
qed

subsection \<open>Ledger read failures\<close>

lemma decide_reason: "reason (decide policy tc t w a) \<noteq> CouldNotVerify"
  by (simp add: decide_def Let_def split: option.splits)

text \<open>
  Claim C10. A storage error on either ledger read is swallowed and reads as 0. With
  both reads failing and the policy readable, \<open>checkAutoApproval\<close> decides as if nothing
  had been spent, so a trusted contact's transfer within the limits is auto-approved
  whatever the ledger holds; and as long as the policy can be read the result is never
  the "could not verify" one.
\<close>

theorem ledger_read_failure_reads_as_zero:
  "(fails e SelectTodaySpending \<longrightarrow> getTodaySpending e d userId = Num 0)
   \<and> (fails e SelectWeekSpending \<longrightarrow> getWeekSpending e d userId = Num 0)
   \<and> (getUserPolicy e d userId = Inr (d', policy) \<longrightarrow>
        reason (snd (checkAutoApproval e d userId contactId amountNum)) \<noteq> CouldNotVerify
      \<and> (fails e SelectTodaySpending \<longrightarrow> fails e SelectWeekSpending \<longrightarrow>
           snd (checkAutoApproval e d userId contactId amountNum) =
             decide policy (isTrustedContact e d userId contactId) (Num 0) (Num 0) amountNum
         \<and> (isTrustedContact e d userId contactId = Some tc \<longrightarrow>
             amountNum = Num a \<longrightarrow> a \<le> daily_spending_limit policy \<longrightarrow>
             a \<le> weekly_spending_limit policy \<longrightarrow>
             js_le amountNum (effectiveLimit tc policy) \<longrightarrow>
               classify (snd (checkAutoApproval e d userId contactId amountNum)) = AutoApproved)))"
proof (intro conjI impI)
  assume "fails e SelectTodaySpending"
  then show "getTodaySpending e d userId = Num 0"
    by (simp add: getTodaySpending_def select_single_def)
next
  assume "fails e SelectWeekSpending"
  then show "getWeekSpending e d userId = Num 0"
    by (simp add: getWeekSpending_def select_rows_def)
next
  assume p: "getUserPolicy e d userId = Inr (d', policy)"
  show "reason (snd (checkAutoApproval e d userId contactId amountNum)) \<noteq> CouldNotVerify"
    by (simp add: checkAutoApproval_decide [OF p] decide_reason)
next
  assume p: "getUserPolicy e d userId = Inr (d', policy)"
    and t: "fails e SelectTodaySpending" and w: "fails e SelectWeekSpending"
  from t have t0: "getTodaySpending e d userId = Num 0"
    by (simp add: getTodaySpending_def select_single_def)
  from w have w0: "getWeekSpending e d userId = Num 0"
    by (simp add: getWeekSpending_def select_rows_def)
  show r: "snd (checkAutoApproval e d userId contactId amountNum) =
             decide policy (isTrustedContact e d userId contactId) (Num 0) (Num 0) amountNum"
    by (simp add: checkAutoApproval_decide [OF p] t0 w0)
  assume "isTrustedContact e d userId contactId = Some tc" and "amountNum = Num a"
    and "a \<le> daily_spending_limit policy" and "a \<le> weekly_spending_limit policy"
    and "js_le amountNum (effectiveLimit tc policy)"
  with r show "classify (snd (checkAutoApproval e d userId contactId amountNum)) = AutoApproved"
    by (simp add: decide_def classify_def js_gt_def fl_mono)
qed

theorem ledger_read_failure_reads_as_zero_witness:
  "fails ex_env_ledger_fault SelectTodaySpending
   \<and> fails ex_env_ledger_fault SelectWeekSpending
   \<and> getUserPolicy ex_env_ledger_fault ex_db 1 = Inr (ex_db, default_policy 1)
   \<and> isTrustedContact ex_env_ledger_fault ex_db 1 2 =
        Some \<lparr>tc_user_id = 1, tc_contact_id = 2, tc_auto_approve_limit = Some 20\<rparr>
   \<and> (15 :: rat) \<le> daily_spending_limit (default_policy 1)
   \<and> (15 :: rat) \<le> weekly_spending_limit (default_policy 1)
   \<and> js_le (Num 15) (effectiveLimit
         \<lparr>tc_user_id = 1, tc_contact_id = 2, tc_auto_approve_limit = Some 20\<rparr> (default_policy 1))
   \<and> getTodaySpending ex_env ex_db 1 = Num 90
   \<and> getTodaySpending ex_env_ledger_fault ex_db 1 = Num 0
   \<and> getWeekSpending ex_env ex_db 1 = Num 90
   \<and> getWeekSpending ex_env_ledger_fault ex_db 1 = Num 0
   \<and> classify (snd (checkAutoApproval ex_env ex_db 1 2 (Num 15))) = Blocked
   \<and> classify (snd (checkAutoApproval ex_env_ledger_fault ex_db 1 2 (Num 15))) = AutoApproved
   \<and> reason (snd (checkAutoApproval ex_env_ledger_fault ex_db 1 2 (Num 15))) \<noteq> CouldNotVerify"
proof -
  have t: "fails ex_env_ledger_fault SelectTodaySpending" by code_simp
  have w: "fails ex_env_ledger_fault SelectWeekSpending" by code_simp
  have p: "getUserPolicy ex_env_ledger_fault ex_db 1 = Inr (ex_db, default_policy 1)"
    by code_simp
  have c: "isTrustedContact ex_env_ledger_fault ex_db 1 2 =
        Some \<lparr>tc_user_id = 1, tc_contact_id = 2, tc_auto_approve_limit = Some 20\<rparr>"
    by code_simp
  have l1: "(15 :: rat) \<le> daily_spending_limit (default_policy 1)" by code_simp
  have l2: "(15 :: rat) \<le> weekly_spending_limit (default_policy 1)" by code_simp
  have l3: "js_le (Num 15) (effectiveLimit
         \<lparr>tc_user_id = 1, tc_contact_id = 2, tc_auto_approve_limit = Some 20\<rparr> (default_policy 1))"
    by code_simp
  have s90: "getTodaySpending ex_env ex_db 1 = Num 90" by code_simp
  have blocked: "classify (snd (checkAutoApproval ex_env ex_db 1 2 (Num 15))) = Blocked"
    by code_simp
  note th = ledger_read_failure_reads_as_zero
    [where e = ex_env_ledger_fault and d = ex_db and userId = 1 and contactId = 2
       and amountNum = "Num 15" and d' = ex_db and policy = "default_policy 1" and a = 15
       and tc = "\<lparr>tc_user_id = 1, tc_contact_id = 2, tc_auto_approve_limit = Some 20\<rparr>"]
  from th t have z: "getTodaySpending ex_env_ledger_fault ex_db 1 = Num 0" by blast
  have w90: "getWeekSpending ex_env ex_db 1 = Num 90" by code_simp
  from th w have zw: "getWeekSpending ex_env_ledger_fault ex_db 1 = Num 0" by blast
  from th t w p c l1 l2 l3
  have auto: "classify (snd (checkAutoApproval ex_env_ledger_fault ex_db 1 2 (Num 15))) = AutoApproved"
    by blast
  from th p
  have nc: "reason (snd (checkAutoApproval ex_env_ledger_fault ex_db 1 2 (Num 15))) \<noteq> CouldNotVerify"
    by blast
  from t w p c l1 l2 l3 s90 z w90 zw blocked auto nc show ?thesis by blast
qed

subsection \<open>Adding a trusted contact\<close>





subsection \<open>Trust and the auto-approve limit\<close>

lemma js_gt_not_le: "js_gt a b \<Longrightarrow> \<not> js_le a b"
  by (simp add: js_gt_def js_le_def)

lemma isTrustedContact_single:
  "\<not> fails e SelectTrusted \<Longrightarrow> trusted_rows d userId contactId = [tc] \<Longrightarrow>
     isTrustedContact e d userId contactId = Some tc"
  by (simp add: isTrustedContact_def select_single_def)

lemma isTrustedContact_none:
  "trusted_rows d userId contactId = [] \<Longrightarrow> isTrustedContact e d userId contactId = None"
  by (simp add: isTrustedContact_def select_single_def)

text \<open>
  Claim C5 does not hold of \<open>checkAutoApproval\<close> for an override limit of 0. User 1
  trusts contact 3 with the limit 0. For an amount of 3 no budget limit is exceeded and
  the amount is above the limit the claim names (the override, 0), so the claim asks for
  \<open>RequiresConfirmation\<close>; the code auto-approves, because \<^verbatim>\<open>||\<close> skips a zero
  override and falls back to the policy's limit of 5.
\<close>

theorem zero_override_auto_approved:
  "\<not> js_gt (js_add (getTodaySpending ex_env ex_db 1) (Num 3)) (fl (daily_spending_limit (default_policy 1)))
   \<and> \<not> js_gt (js_add (getWeekSpending ex_env ex_db 1) (Num 3)) (fl (weekly_spending_limit (default_policy 1)))
   \<and> isTrustedContact ex_env ex_db 1 3 =
        Some \<lparr>tc_user_id = 1, tc_contact_id = 3, tc_auto_approve_limit = Some 0\<rparr>
   \<and> js_gt (Num 3) (spec_effectiveLimit \<lparr>tc_user_id = 1, tc_contact_id = 3, tc_auto_approve_limit = Some 0\<rparr> (default_policy 1))
   \<and> effectiveLimit \<lparr>tc_user_id = 1, tc_contact_id = 3, tc_auto_approve_limit = Some 0\<rparr>
         (default_policy 1) = Num 5
   \<and> classify (snd (checkAutoApproval ex_env ex_db 1 3 (Num 3))) = AutoApproved
   \<and> classify (snd (checkAutoApproval ex_env ex_db 1 3 (Num 3))) \<noteq> RequiresConfirmation"
  by code_simp

text \<open>
  Apart from that, the trust rules are as described. When the policy can be read and
  neither budget limit would be exceeded: a contact with no trusted-contact row gives
  \<open>RequiresConfirmation\<close> with the reason not-trusted; for a contact whose row can be
  read, an amount at most \<open>effectiveLimit\<close> is auto-approved and an amount above it
  gives \<open>RequiresConfirmation\<close> with the reason exceeds-auto-approve-limit.
\<close>

lemma trust_then_limit:
  assumes "getUserPolicy e d userId = Inr (d', policy)"
    and "\<not> js_gt (js_add (getTodaySpending e d userId) amountNum)
                 (fl (daily_spending_limit policy))"
    and "\<not> js_gt (js_add (getWeekSpending e d userId) amountNum)
                 (fl (weekly_spending_limit policy))"
  shows "(trusted_rows d userId contactId = [] \<longrightarrow>
            classify (snd (checkAutoApproval e d userId contactId amountNum)) = RequiresConfirmation
          \<and> reason (snd (checkAutoApproval e d userId contactId amountNum)) = NotTrusted)
       \<and> (\<not> fails e SelectTrusted \<longrightarrow> trusted_rows d userId contactId = [tc] \<longrightarrow>
            (js_le amountNum (effectiveLimit tc policy) \<longrightarrow>
                classify (snd (checkAutoApproval e d userId contactId amountNum)) = AutoApproved
              \<and> reason (snd (checkAutoApproval e d userId contactId amountNum)) =
                  WithinLimit amountNum (effectiveLimit tc policy))
          \<and> (js_gt amountNum (effectiveLimit tc policy) \<longrightarrow>
                classify (snd (checkAutoApproval e d userId contactId amountNum)) = RequiresConfirmation
              \<and> reason (snd (checkAutoApproval e d userId contactId amountNum)) =
                  ExceedsAutoApproveLimit amountNum (effectiveLimit tc policy)))"
proof (intro conjI impI)
  assume "trusted_rows d userId contactId = []"
  then have n: "isTrustedContact e d userId contactId = None"
    by (rule isTrustedContact_none)
  show "classify (snd (checkAutoApproval e d userId contactId amountNum)) = RequiresConfirmation"
    using assms(2,3) by (simp add: checkAutoApproval_decide [OF assms(1)] n decide_def classify_def)
  show "reason (snd (checkAutoApproval e d userId contactId amountNum)) = NotTrusted"
    using assms(2,3) by (simp add: checkAutoApproval_decide [OF assms(1)] n decide_def)
next
  assume f: "\<not> fails e SelectTrusted" and t: "trusted_rows d userId contactId = [tc]"
    and le: "js_le amountNum (effectiveLimit tc policy)"
  note s = isTrustedContact_single [OF f t]
  show "classify (snd (checkAutoApproval e d userId contactId amountNum)) = AutoApproved"
    using assms(2,3) le
    by (simp add: checkAutoApproval_decide [OF assms(1)] s decide_def classify_def)
  show "reason (snd (checkAutoApproval e d userId contactId amountNum)) =
                  WithinLimit amountNum (effectiveLimit tc policy)"
    using assms(2,3) le
    by (simp add: checkAutoApproval_decide [OF assms(1)] s decide_def)
next
  assume f: "\<not> fails e SelectTrusted" and t: "trusted_rows d userId contactId = [tc]"
    and gt: "js_gt amountNum (effectiveLimit tc policy)"
  note s = isTrustedContact_single [OF f t]
  note nle = js_gt_not_le [OF gt]
  show "classify (snd (checkAutoApproval e d userId contactId amountNum)) = RequiresConfirmation"
    using assms(2,3) nle
    by (simp add: checkAutoApproval_decide [OF assms(1)] s decide_def classify_def)
  show "reason (snd (checkAutoApproval e d userId contactId amountNum)) =
                  ExceedsAutoApproveLimit amountNum (effectiveLimit tc policy)"
    using assms(2,3) nle
    by (simp add: checkAutoApproval_decide [OF assms(1)] s decide_def)
qed

subsection \<open>Recording a spend\<close>

text \<open>
  Claim C4, as stated, fails: \<open>updateDailySpending\<close> checks nothing and raises nothing.
  A negative amount is not refused but lowers the day's total from 90 to 85, and NaN is
  not refused but stored as a null total; both calls return normally. And when the write
  request fails, the call still returns normally, with the ledger as it was.
\<close>

theorem negative_amount_counterexample:
  "updateDailySpending ex_env ex_db 1 (Num (- 5)) =
     Inr (ex_db\<lparr>daily_spending :=
            [\<lparr>ds_id = 1, ds_user_id = 1, ds_date = 20467, total_spent = Some 85,
              transaction_count = 4\<rparr>]\<rparr>)
   \<and> updateDailySpending ex_env ex_db 1 NaN =
     Inr (ex_db\<lparr>daily_spending :=
            [\<lparr>ds_id = 1, ds_user_id = 1, ds_date = 20467, total_spent = None,
              transaction_count = 4\<rparr>]\<rparr>)
   \<and> fails ex_env_write_fault UpdateSpending
   \<and> updateDailySpending ex_env_write_fault ex_db 1 (Num 5) = Inr ex_db"
  by code_simp

lemma select_existing_single:
  "\<not> fails e SelectExistingSpending \<Longrightarrow>
   filter (\<lambda>r. ds_user_id r = userId \<and> ds_date r = today e) (daily_spending d) = [ex] \<Longrightarrow>
   select_existing e d userId = Some ex"
  by (simp add: select_existing_def select_single_def)

lemma select_existing_none:
  "filter (\<lambda>r. ds_user_id r = userId \<and> ds_date r = today e) (daily_spending d) = [] \<Longrightarrow>
   select_existing e d userId = None"
  by (simp add: select_existing_def select_single_def)

lemma filter_update_by_id:
  "filter (\<lambda>r. ds_user_id r = u \<and> ds_date r = day)
     (map (\<lambda>r. if ds_id r = i then r\<lparr>total_spent := t, transaction_count := n\<rparr> else r) rows)
   = map (\<lambda>r. if ds_id r = i then r\<lparr>total_spent := t, transaction_count := n\<rparr> else r)
       (filter (\<lambda>r. ds_user_id r = u \<and> ds_date r = day) rows)"
  by (induction rows) auto

lemma store_decimal_not_finite:
  "amountNum \<in> {NaN, PosInfinity, NegInfinity} \<Longrightarrow>
   store_decimal (js_add s amountNum) = Inr None \<and> store_decimal amountNum = Inr None"
  by (cases s) auto

text \<open>
  Claim C4, amended. \<open>updateDailySpending\<close> validates nothing. With working storage,
  and where the database accepts the new values (a total within DECIMAL(10,2), a count
  within INTEGER), a call with any amount, negative and non-finite ones included,
  returns normally. Where the day has a record, its total becomes the existing total
  plus the amount, added as doubles and rounded to cents by the column, or NULL when the
  amount is not finite, and its count goes up by one. Where the day has no record, one
  is inserted with the amount as total, NULL when it is not finite, and count 1.
\<close>

theorem updateDailySpending_no_validation:
  "(\<not> fails e SelectExistingSpending \<longrightarrow> \<not> fails e UpdateSpending \<longrightarrow>
      filter (\<lambda>r. ds_user_id r = userId \<and> ds_date r = today e) (daily_spending d) = [ex] \<longrightarrow>
      store_decimal (js_add (parseFloat (total_spent ex)) amountNum) = Inr newTotal \<longrightarrow>
      int4 (transaction_count ex + 1) = Inr newCount \<longrightarrow>
        (\<exists>d1. updateDailySpending e d userId amountNum = Inr d1
           \<and> filter (\<lambda>r. ds_user_id r = userId \<and> ds_date r = today e) (daily_spending d1) =
               [ex\<lparr>total_spent := newTotal, transaction_count := newCount\<rparr>])
        \<and> newCount = transaction_count ex + 1
        \<and> (amountNum \<in> {NaN, PosInfinity, NegInfinity} \<longrightarrow> newTotal = None))
   \<and> (\<not> fails e InsertSpending \<longrightarrow>
      filter (\<lambda>r. ds_user_id r = userId \<and> ds_date r = today e) (daily_spending d) = [] \<longrightarrow>
      store_decimal amountNum = Inr newTotal \<longrightarrow>
        (\<exists>d1. updateDailySpending e d userId amountNum = Inr d1
           \<and> filter (\<lambda>r. ds_user_id r = userId \<and> ds_date r = today e) (daily_spending d1) =
               [\<lparr>ds_id = fresh_id (map ds_id (daily_spending d)), ds_user_id = userId,
                 ds_date = today e, total_spent = newTotal, transaction_count = 1\<rparr>])
        \<and> (amountNum \<in> {NaN, PosInfinity, NegInfinity} \<longrightarrow> newTotal = None))"
proof (intro conjI impI)
  assume s: "\<not> fails e SelectExistingSpending" and u: "\<not> fails e UpdateSpending"
    and f: "filter (\<lambda>r. ds_user_id r = userId \<and> ds_date r = today e) (daily_spending d) = [ex]"
    and t: "store_decimal (js_add (parseFloat (total_spent ex)) amountNum) = Inr newTotal"
    and c: "int4 (transaction_count ex + 1) = Inr newCount"
  show "\<exists>d1. updateDailySpending e d userId amountNum = Inr d1
           \<and> filter (\<lambda>r. ds_user_id r = userId \<and> ds_date r = today e) (daily_spending d1) =
               [ex\<lparr>total_spent := newTotal, transaction_count := newCount\<rparr>]"
    using u
    by (simp add: updateDailySpending_def select_existing_single [OF s f] write_spending_def
          t c filter_update_by_id f)
  from c show "newCount = transaction_count ex + 1"
    by (simp add: int4_def split: if_splits)
  assume "amountNum \<in> {NaN, PosInfinity, NegInfinity}"
  from store_decimal_not_finite [OF this, of "parseFloat (total_spent ex)"] t
  show "newTotal = None" by simp
next
  assume i: "\<not> fails e InsertSpending"
    and f: "filter (\<lambda>r. ds_user_id r = userId \<and> ds_date r = today e) (daily_spending d) = []"
    and t: "store_decimal amountNum = Inr newTotal"
  from f have n: "(userId, today e) \<notin> (\<lambda>r. (ds_user_id r, ds_date r)) ` set (daily_spending d)"
    by (auto simp: filter_empty_conv)
  show "\<exists>d1. updateDailySpending e d userId amountNum = Inr d1
           \<and> filter (\<lambda>r. ds_user_id r = userId \<and> ds_date r = today e) (daily_spending d1) =
               [\<lparr>ds_id = fresh_id (map ds_id (daily_spending d)), ds_user_id = userId,
                 ds_date = today e, total_spent = newTotal, transaction_count = 1\<rparr>]"
    using i n
    by (simp add: updateDailySpending_def select_existing_none [OF f] write_spending_def t f)
  assume "amountNum \<in> {NaN, PosInfinity, NegInfinity}"
  from store_decimal_not_finite [OF this, of NaN] t
  show "newTotal = None" by simp
qed

theorem updateDailySpending_no_validation_witness:
  "\<not> fails ex_env SelectExistingSpending \<and> \<not> fails ex_env UpdateSpending
   \<and> \<not> fails ex_env InsertSpending
   \<and> filter (\<lambda>r. ds_user_id r = 1 \<and> ds_date r = today ex_env) (daily_spending ex_db) =
       [\<lparr>ds_id = 1, ds_user_id = 1, ds_date = 20467, total_spent = Some 90,
         transaction_count = 3\<rparr>]
   \<and> store_decimal (js_add (parseFloat (Some 90)) (Num (- 5))) = Inr (Some 85)
   \<and> int4 (3 + 1) = Inr 4
   \<and> (\<exists>d1. updateDailySpending ex_env ex_db 1 (Num (- 5)) = Inr d1
         \<and> filter (\<lambda>r. ds_user_id r = 1 \<and> ds_date r = today ex_env) (daily_spending d1) =
             [\<lparr>ds_id = 1, ds_user_id = 1, ds_date = 20467, total_spent = Some 85,
               transaction_count = 4\<rparr>])
   \<and> filter (\<lambda>r. ds_user_id r = 5 \<and> ds_date r = today ex_env) (daily_spending ex_db) = []
   \<and> NegInfinity \<in> {NaN, PosInfinity, NegInfinity}
   \<and> store_decimal NegInfinity = Inr None
   \<and> (\<exists>d1. updateDailySpending ex_env ex_db 5 NegInfinity = Inr d1
         \<and> filter (\<lambda>r. ds_user_id r = 5 \<and> ds_date r = today ex_env) (daily_spending d1) =
             [\<lparr>ds_id = 2, ds_user_id = 5, ds_date = 20467, total_spent = None,
               transaction_count = 1\<rparr>])"
proof -
  have s: "\<not> fails ex_env SelectExistingSpending" by code_simp
  have u: "\<not> fails ex_env UpdateSpending" by code_simp
  have i: "\<not> fails ex_env InsertSpending" by code_simp
  have f: "filter (\<lambda>r. ds_user_id r = 1 \<and> ds_date r = today ex_env) (daily_spending ex_db) =
       [\<lparr>ds_id = 1, ds_user_id = 1, ds_date = 20467, total_spent = Some 90,
         transaction_count = 3\<rparr>]"
    by code_simp
  have t: "store_decimal (js_add (parseFloat (Some 90)) (Num (- 5))) = Inr (Some 85)"
    by code_simp
  have c: "int4 (3 + 1) = Inr 4" by code_simp
  have f5: "filter (\<lambda>r. ds_user_id r = 5 \<and> ds_date r = today ex_env) (daily_spending ex_db) = []"
    by code_simp
  have m: "NegInfinity \<in> {NaN, PosInfinity, NegInfinity}" by simp
  have t5: "store_decimal NegInfinity = Inr None" by simp
  have id2: "fresh_id (map ds_id (daily_spending ex_db)) = 2" by code_simp
  have td: "today ex_env = 20467" by code_simp
  note a = updateDailySpending_no_validation
    [where e = ex_env and d = ex_db and userId = 1 and amountNum = "Num (- 5)"
       and newTotal = "Some 85" and newCount = 4
       and ex = "\<lparr>ds_id = 1, ds_user_id = 1, ds_date = 20467, total_spent = Some 90,
         transaction_count = 3\<rparr>"]
  note b = updateDailySpending_no_validation
    [where e = ex_env and d = ex_db and userId = 5 and amountNum = NegInfinity
       and newTotal = None]
  from a s u f t c have c1: "\<exists>d1. updateDailySpending ex_env ex_db 1 (Num (- 5)) = Inr d1
         \<and> filter (\<lambda>r. ds_user_id r = 1 \<and> ds_date r = today ex_env) (daily_spending d1) =
             [\<lparr>ds_id = 1, ds_user_id = 1, ds_date = 20467, total_spent = Some 85,
               transaction_count = 4\<rparr>]"
    by simp
  from b i f5 t5 have c2: "\<exists>d1. updateDailySpending ex_env ex_db 5 NegInfinity = Inr d1
         \<and> filter (\<lambda>r. ds_user_id r = 5 \<and> ds_date r = today ex_env) (daily_spending d1) =
             [\<lparr>ds_id = 2, ds_user_id = 5, ds_date = 20467, total_spent = None,
               transaction_count = 1\<rparr>]"
    by (simp add: id2 td)
  from s u i f t c f5 m t5 c1 c2 show ?thesis by blast
qed

subsection \<open>Concurrent spends\<close>

text \<open>A call that runs its two steps back to back is \<open>updateDailySpending\<close>.\<close>

lemma step_call_twice:
  "step_call e userId (fst (step_call e userId d (Pending amountNum)))
       (snd (step_call e userId d (Pending amountNum))) = (d', Finished)
     \<longleftrightarrow> updateDailySpending e d userId amountNum = Inr d'"
  by (simp add: updateDailySpending_def)

text \<open>
  Claim C3 does not hold of \<open>updateDailySpending\<close>: the record is read and then written
  back in two requests. Two concurrent calls of 1.00 for user 1, scheduled read, read,
  write, write, both read the total 90 and both write 91 with count 4: one spend is
  lost, where the same calls one after the other give 92 and count 5. For user 5, who
  has no record yet, both calls read "no record" and both insert; the second insert is
  rejected by \<^verbatim>\<open>UNIQUE(user_id, date)\<close> and dropped, leaving total 1 and count 1 after
  two spends.
\<close>

theorem concurrent_spend_lost_update:
  "run_schedule ex_env 1 [0, 1, 0, 1] (ex_db, [Pending (Num 1), Pending (Num 1)]) =
     (ex_db\<lparr>daily_spending :=
        [\<lparr>ds_id = 1, ds_user_id = 1, ds_date = 20467, total_spent = Some 91,
          transaction_count = 4\<rparr>]\<rparr>,
      [Finished, Finished])
   \<and> run_schedule ex_env 1 [0, 0, 1, 1] (ex_db, [Pending (Num 1), Pending (Num 1)]) =
     (ex_db\<lparr>daily_spending :=
        [\<lparr>ds_id = 1, ds_user_id = 1, ds_date = 20467, total_spent = Some 92,
          transaction_count = 5\<rparr>]\<rparr>,
      [Finished, Finished])
   \<and> run_schedule ex_env 5 [0, 1, 0, 1] (ex_db, [Pending (Num 1), Pending (Num 1)]) =
     (ex_db\<lparr>daily_spending :=
        [\<lparr>ds_id = 1, ds_user_id = 1, ds_date = 20467, total_spent = Some 90,
          transaction_count = 3\<rparr>,
         \<lparr>ds_id = 2, ds_user_id = 5, ds_date = 20467, total_spent = Some 1,
          transaction_count = 1\<rparr>]\<rparr>,
      [Finished, Finished])"
  by code_simp

subsection \<open>Budget utilisation in the spending summary\<close>

text \<open>
  Claim C9 does not hold of \<open>getSpendingSummary\<close> for a limit of 0: the quotient is
  taken without a guard. With a daily limit of 0 and 5 spent, the daily
  \<open>percentUsed\<close> is \<open>Infinity\<close> (the weekly one, against 500, is 1); with both limits 0
  and nothing spent, both are NaN. Neither is 0 nor a flag.
\<close>

theorem percentUsed_zero_limit:
  "map_sum id (\<lambda>r. (percentUsed (daily (snd r)), percentUsed (weekly (snd r))))
       (getSpendingSummary ex_env ex_db_zero_limit 1 7) = Inr (PosInfinity, Num 1)
   \<and> map_sum id (\<lambda>r. (percentUsed (daily (snd r)), percentUsed (weekly (snd r))))
       (getSpendingSummary ex_env ex_db_zero_limit 6 7) = Inr (NaN, NaN)"
  by code_simp

subsection \<open>Weekly spend\<close>

text \<open>
  Claim C8, as stated, fails: the sum is taken in double precision. For the week's totals
  0.03, 0.09 and 0.05 the function returns 0.16999999999999998, which is neither the
  exact sum 0.17 nor the double nearest to it. And the week does not start on a Monday on
  every server: nine hours ahead of UTC, on Wednesday 20:00 UTC, the records are taken
  from Sunday (day 20464) on, which gives 82.5 where the records from Monday to today
  sum to 42.5.
\<close>

theorem weekSpend_not_exact_counterexample:
  "getWeekSpending ex_env ex_db_cents 1 = Num (3062447746611937 / 18014398509481984)
   \<and> spec_weekSpend (daily_spending ex_db_cents) 1 (today ex_env) = 17 / 100
   \<and> getWeekSpending ex_env ex_db_cents 1 \<noteq> Num (17 / 100)
   \<and> getWeekSpending ex_env ex_db_cents 1 \<noteq> fl (17 / 100)
   \<and> weekStart ex_env_utc9 = 20464
   \<and> spec_week_start (today ex_env_utc9) = 20465
   \<and> getWeekSpending ex_env_utc9 ex_db_week 1 = Num (165 / 2)
   \<and> spec_weekSpend (daily_spending ex_db_week) 1 (today ex_env_utc9) = 85 / 2"
  by code_simp

text \<open>On a server in UTC the week starts on the Monday of today's calendar week.\<close>

lemma weekStart_utc:
  assumes "\<forall>t. localTZA_utc e t = 0" and "\<forall>t. localTZA_local e t = 0"
  shows "weekStart e = spec_week_start (today e)"
proof -
  define L where "L = now e div MS_PER_DAY"
  have shift: "(now e + k * MS_PER_DAY) div MS_PER_DAY = L + k" for k
    by (simp add: L_def MS_PER_DAY_def)
  define m where "m = (L + 3) mod 7"
  have b: "0 \<le> m" "m < 7" by (simp_all add: m_def)
  have "(L + 4) mod 7 = ((L + 3) mod 7 + 1) mod 7"
    by (simp add: mod_simps add.commute)
  then have s: "(L + 4) mod 7 = (m + 1) mod 7" by (simp add: m_def)
  have "(m + 1) mod 7 = (if m = 6 then 0 else m + 1)"
    using b by simp
  with s have "(L + 4) mod 7 = (if m = 6 then 0 else m + 1)" by simp
  then have "- ((L + 4) mod 7) + (if (L + 4) mod 7 = 0 then - 6 else 1) = - ((L + 3) mod 7)"
    using b unfolding m_def [symmetric] by (simp split: if_splits)
  then show ?thesis
    using assms
    by (simp add: weekStart_def Let_def toISODate_def today_def spec_week_start_def shift
          LocalTime_def UTC_def move_days_def L_def [symmetric])
qed

lemma fl_not_NaN: "fl a \<noteq> NaN"
  by (simp add: fl_def)

lemma parseFloat_or_0_money: "parseFloat_or_0 (total_spent r) = fl (money r)"
proof (cases "total_spent r")
  case None
  then show ?thesis by (simp add: money_def fl_def)
next
  case (Some a)
  then show ?thesis using fl_not_NaN [of a] by (cases "fl a") (simp_all add: money_def)
qed

lemma sum_total_spent_double: "sum_total_spent rows = double_sum (map money rows)"
  by (simp add: sum_total_spent_def double_sum_def foldl_map parseFloat_or_0_money)

text \<open>What the function computes on any server: every record from \<open>weekStart\<close> on.\<close>

lemma getWeekSpending_from_weekStart:
  "\<not> fails e SelectWeekSpending \<Longrightarrow>
     getWeekSpending e d userId =
       double_sum (map money (rows_from (daily_spending d) userId (weekStart e)))"
  by (simp add: getWeekSpending_def select_rows_def sum_total_spent_double week_rows_def
        rows_from_def)

text \<open>
  Claim C8, amended. On a server whose local time is UTC, when the read succeeds,
  \<open>getWeekSpending\<close> is the sum, taken in double precision from the first record to the
  last, of \<open>totalSpent\<close> over the user's records dated on or after the Monday starting
  the current calendar week, a null total counting as 0. The read has no upper bound on
  the date: these are the records of the week up to today when none of the user's
  records is dated after today. The result is 0 when there is no such record.
\<close>

theorem weekSpend_double_sum:
  assumes "\<not> fails e SelectWeekSpending"
    and "\<forall>t. localTZA_utc e t = 0"
    and "\<forall>t. localTZA_local e t = 0"
  shows "getWeekSpending e d userId =
           double_sum (map money (rows_from (daily_spending d) userId (spec_week_start (today e))))
       \<and> ((\<forall>r \<in> set (daily_spending d). ds_user_id r = userId \<longrightarrow> ds_date r \<le> today e) \<longrightarrow>
            rows_from (daily_spending d) userId (spec_week_start (today e)) =
              spec_week_rows (daily_spending d) userId (today e))
       \<and> (rows_from (daily_spending d) userId (spec_week_start (today e)) = [] \<longrightarrow>
            getWeekSpending e d userId = Num 0)"
proof (intro conjI impI)
  show g: "getWeekSpending e d userId =
           double_sum (map money (rows_from (daily_spending d) userId (spec_week_start (today e))))"
    by (simp add: getWeekSpending_from_weekStart [OF assms(1)] weekStart_utc [OF assms(2,3)])
  {
    assume "\<forall>r \<in> set (daily_spending d). ds_user_id r = userId \<longrightarrow> ds_date r \<le> today e"
    then show "rows_from (daily_spending d) userId (spec_week_start (today e)) =
              spec_week_rows (daily_spending d) userId (today e)"
      unfolding rows_from_def spec_week_rows_def by (intro filter_cong) auto
  }
  assume "rows_from (daily_spending d) userId (spec_week_start (today e)) = []"
  with g show "getWeekSpending e d userId = Num 0" by (simp add: double_sum_def)
qed

theorem weekSpend_double_sum_witness:
  "\<not> fails ex_env SelectWeekSpending
   \<and> (\<forall>t. localTZA_utc ex_env t = 0)
   \<and> (\<forall>t. localTZA_local ex_env t = 0)
   \<and> spec_week_start (today ex_env) = 20465
   \<and> map money (rows_from (daily_spending ex_db_week) 1 (spec_week_start (today ex_env))) =
       [25 / 2, 0, 30]
   \<and> getWeekSpending ex_env ex_db_week 1 = Num (85 / 2)
   \<and> list_all (\<lambda>r. ds_date r \<le> today ex_env) (daily_spending ex_db_week)
   \<and> rows_from (daily_spending ex_db_week) 1 (spec_week_start (today ex_env)) =
       spec_week_rows (daily_spending ex_db_week) 1 (today ex_env)
   \<and> double_sum [3 / 100, 9 / 100, 5 / 100] = Num (3062447746611937 / 18014398509481984)
   \<and> getWeekSpending ex_env ex_db_cents 1 = double_sum [3 / 100, 9 / 100, 5 / 100]
   \<and> rows_from (daily_spending ex_db_week) 3 (spec_week_start (today ex_env)) = []
   \<and> getWeekSpending ex_env ex_db_week 3 = Num 0"
proof -
  have f: "\<not> fails ex_env SelectWeekSpending" by code_simp
  have zu: "\<forall>t. localTZA_utc ex_env t = 0" by (simp add: ex_env_def)
  have zl: "\<forall>t. localTZA_local ex_env t = 0" by (simp add: ex_env_def)
  have m: "spec_week_start (today ex_env) = 20465" by code_simp
  have r: "map money (rows_from (daily_spending ex_db_week) 1 (spec_week_start (today ex_env))) =
       [25 / 2, 0, 30]"
    by code_simp
  have s: "double_sum [25 / 2, 0, 30] = Num (85 / 2)" by code_simp
  have i: "list_all (\<lambda>r. ds_date r \<le> today ex_env) (daily_spending ex_db_week)"
    by code_simp
  then have i1: "\<forall>r \<in> set (daily_spending ex_db_week). ds_user_id r = 1 \<longrightarrow> ds_date r \<le> today ex_env"
    by (simp add: list_all_iff)
  have rc: "map money (rows_from (daily_spending ex_db_cents) 1 (spec_week_start (today ex_env))) =
       [3 / 100, 9 / 100, 5 / 100]"
    by code_simp
  have sc: "double_sum [3 / 100, 9 / 100, 5 / 100] = Num (3062447746611937 / 18014398509481984)"
    by code_simp
  have n: "rows_from (daily_spending ex_db_week) 3 (spec_week_start (today ex_env)) = []"
    by code_simp
  note w = weekSpend_double_sum [OF f zu zl]
  from w [of ex_db_week 1] r s
  have c1: "getWeekSpending ex_env ex_db_week 1 = Num (85 / 2)" by simp
  from w [of ex_db_week 1] i1
  have c2: "rows_from (daily_spending ex_db_week) 1 (spec_week_start (today ex_env)) =
       spec_week_rows (daily_spending ex_db_week) 1 (today ex_env)"
    by blast
  from w [of ex_db_cents 1] rc
  have c3: "getWeekSpending ex_env ex_db_cents 1 = double_sum [3 / 100, 9 / 100, 5 / 100]"
    by simp
  from w [of ex_db_week 3] n
  have c4: "getWeekSpending ex_env ex_db_week 3 = Num 0" by blast
  from f zu zl m r c1 i c2 sc c3 n c4 show ?thesis by blast
qed

subsection \<open>Low-balance alerts\<close>

text \<open>
  Claim C7 does not hold of \<open>checkLowBalanceAlert\<close>: the look for today's alert asks for
  a single row and its error is never read, so a failed look, or a look that finds two
  rows, reads as "no alert yet". Of five checks on one day with a low balance, where
  only the second one's look fails, every one creates an alert and returns it: the day
  ends with five low-balance alerts. And in a state that already holds two low-balance
  alerts of today, a check with working storage adds a third. The same five checks with
  working storage throughout create one alert.
\<close>

theorem low_balance_alert_repeated:
  "map (\<lambda>c. toISODate (now (fst c))) ex_calls_one_fault = [20467, 20467, 20467, 20467, 20467]
   \<and> list_all (\<lambda>c. js_le (snd c) (fl (policy_threshold ex_db 1))) ex_calls_one_fault
   \<and> low_balance_since ex_db 1 20467 = []
   \<and> map (map_option al_id) (snd (checkLowBalanceAlert_calls ex_db 1 ex_calls_one_fault)) =
       [Some 1, Some 2, Some 3, Some 4, Some 5]
   \<and> map al_id (low_balance_since (fst (checkLowBalanceAlert_calls ex_db 1 ex_calls_one_fault))
                  1 20467) = [1, 2, 3, 4, 5]
   \<and> map al_id (low_balance_since ex_db_two_alerts 1 20467) = [1, 2]
   \<and> map_option al_id (snd (checkLowBalanceAlert ex_env ex_db_two_alerts 1 (Num 3))) = Some 3
   \<and> map al_id (low_balance_since (fst (checkLowBalanceAlert ex_env ex_db_two_alerts 1 (Num 3)))
                  1 20467) = [1, 2, 3]
   \<and> map (map_option al_id) (snd (checkLowBalanceAlert_calls ex_db 1 ex_calls)) =
       [Some 1, None, None, None, None]"
  by code_simp

text \<open>
  With working storage, and starting from a day without a low-balance alert for the user,
  the checks of the day do create exactly one alert. The lemmas below establish this.
\<close>

lemma filter_key_distinct:
  "distinct (map f xs) \<Longrightarrow> length (filter (\<lambda>x. f x = k) xs) \<le> 1"
proof (induction xs)
  case Nil
  then show ?case by simp
next
  case (Cons x xs)
  show ?case
  proof (cases "f x = k")
    case True
    with Cons.prems have "k \<notin> f ` set xs" by auto
    then have "filter (\<lambda>x. f x = k) xs = []" by (auto simp: filter_empty_conv)
    with True show ?thesis by simp
  next
    case False
    with Cons show ?thesis by simp
  qed
qed

lemma getUserPolicy_ok:
  assumes "\<not> fails e SelectPolicy" and "\<not> fails e InsertPolicy"
    and "distinct (map p_user_id (user_policies d))"
  shows "\<exists>d' p. getUserPolicy e d userId = Inr (d', p)
           \<and> low_balance_alert_threshold p = policy_threshold d userId
           \<and> alerts d' = alerts d
           \<and> distinct (map p_user_id (user_policies d'))
           \<and> policy_threshold d' userId = policy_threshold d userId"
proof (cases "filter (\<lambda>p. p_user_id p = userId) (user_policies d)")
  case Nil
  then have "userId \<notin> p_user_id ` set (user_policies d)"
    by (auto simp: filter_empty_conv)
  with Nil assms show ?thesis
    by (simp add: getUserPolicy_def select_single_def insert_policy_def policy_threshold_def
          default_policy_def)
next
  case (Cons p ps)
  from filter_key_distinct [OF assms(3), of userId] Cons have "ps = []" by simp
  with Cons assms show ?thesis
    by (simp add: getUserPolicy_def select_single_def policy_threshold_def)
qed

lemma low_balance_since_alerts:
  "alerts d' = alerts d \<Longrightarrow> low_balance_since d' userId day = low_balance_since d userId day"
  by (simp add: low_balance_since_def)

lemma day_start_le: "toISODate t * MS_PER_DAY \<le> t"
proof -
  have "t div 86400000 * 86400000 \<le> t" by simp
  then show ?thesis by (simp add: toISODate_def MS_PER_DAY_def)
qed

lemma checkLowBalanceAlert_after_policy:
  assumes "getUserPolicy e d userId = Inr (d', p)"
  shows "checkLowBalanceAlert e d userId balance =
     (if js_le balance (fl (low_balance_alert_threshold p))
      then (case select_single e SelectExistingAlert (low_balance_since d' userId (today e)) of
              Inr existingAlert \<Rightarrow> (d', None)
            | Inl err \<Rightarrow>
                (case createAlert e d' userId ''low_balance'' ''Low Balance Alert''
                        (LowBalanceMessage balance (fl (low_balance_alert_threshold p)))
                        [(''balance'', balance), (''threshold'', fl (low_balance_alert_threshold p))] of
                   Inl err' \<Rightarrow> (d', None)
                 | Inr (d'', a) \<Rightarrow> (d'', Some a)))
      else (d', None))"
  unfolding checkLowBalanceAlert_def assms by (simp add: Let_def)

lemma check_when_alert_exists:
  assumes "\<forall>opn. \<not> fails e opn"
    and "distinct (map p_user_id (user_policies d))"
    and "low_balance_since d userId (today e) = [x]"
  shows "\<exists>d'. checkLowBalanceAlert e d userId balance = (d', None)
           \<and> alerts d' = alerts d
           \<and> distinct (map p_user_id (user_policies d'))
           \<and> policy_threshold d' userId = policy_threshold d userId"
proof -
  from assms(1) have nf: "\<not> fails e SelectPolicy" "\<not> fails e InsertPolicy"
    and na: "\<not> fails e SelectExistingAlert"
    by simp_all
  from getUserPolicy_ok [OF nf assms(2), of userId]
  obtain d' p where p: "getUserPolicy e d userId = Inr (d', p)"
    and a: "alerts d' = alerts d"
    and u: "distinct (map p_user_id (user_policies d'))"
    and th: "policy_threshold d' userId = policy_threshold d userId"
    by blast
  from assms(3) have one: "low_balance_since d' userId (today e) = [x]"
    by (simp only: low_balance_since_alerts [OF a])
  have "checkLowBalanceAlert e d userId balance = (d', None)"
    by (simp add: checkLowBalanceAlert_after_policy [OF p] select_single_def na one)
  with a u th show ?thesis by blast
qed

lemma check_when_no_alert:
  assumes "\<forall>opn. \<not> fails e opn"
    and "distinct (map p_user_id (user_policies d))"
    and "low_balance_since d userId (today e) = []"
    and "js_le balance (fl (policy_threshold d userId))"
  shows "\<exists>d' a. checkLowBalanceAlert e d userId balance = (d', Some a)
           \<and> alerts d' = alerts d @ [a]
           \<and> low_balance_since d' userId (today e) = [a]
           \<and> distinct (map p_user_id (user_policies d'))
           \<and> policy_threshold d' userId = policy_threshold d userId"
proof -
  from assms(1) have nf: "\<not> fails e SelectPolicy" "\<not> fails e InsertPolicy"
    and na: "\<not> fails e SelectExistingAlert" and ni: "\<not> fails e InsertAlert"
    by simp_all
  from getUserPolicy_ok [OF nf assms(2), of userId]
  obtain d' p where p: "getUserPolicy e d userId = Inr (d', p)"
    and pt: "low_balance_alert_threshold p = policy_threshold d userId"
    and a: "alerts d' = alerts d"
    and u: "distinct (map p_user_id (user_policies d'))"
    and th: "policy_threshold d' userId = policy_threshold d userId"
    by blast
  from assms(3) have none: "low_balance_since d' userId (today e) = []"
    by (simp only: low_balance_since_alerts [OF a])
  define th0 where "th0 = fl (low_balance_alert_threshold p)"
  define row where "row =
     \<lparr>al_id = fresh_id (map al_id (alerts d')), al_user_id = userId,
      alert_type = ''low_balance'', title = ''Low Balance Alert'',
      message = LowBalanceMessage balance th0,
      metadata = [(''balance'', balance), (''threshold'', th0)],
      is_read = False, created_at = now e\<rparr>"
  have c: "createAlert e d' userId ''low_balance'' ''Low Balance Alert''
             (LowBalanceMessage balance th0) [(''balance'', balance), (''threshold'', th0)]
           = Inr (d'\<lparr>alerts := alerts d' @ [row]\<rparr>, row)"
    using ni by (simp add: createAlert_def Let_def row_def)
  from assms(4) have le: "js_le balance th0" by (simp add: th0_def pt)
  have r: "checkLowBalanceAlert e d userId balance = (d'\<lparr>alerts := alerts d' @ [row]\<rparr>, Some row)"
    unfolding checkLowBalanceAlert_after_policy [OF p] th0_def [symmetric]
    using le by (simp add: select_single_def na none c)
  have k: "al_user_id row = userId \<and> alert_type row = ''low_balance'' \<and> created_at row = now e"
    by (simp add: row_def)
  have s: "low_balance_since (d'\<lparr>alerts := alerts d' @ [row]\<rparr>) userId (today e) = [row]"
    using none day_start_le [of "now e"] k by (simp add: low_balance_since_def today_def)
  have th': "policy_threshold (d'\<lparr>alerts := alerts d' @ [row]\<rparr>) userId = policy_threshold d userId"
    using th by (simp add: policy_threshold_def)
  from r s th' a u show ?thesis by simp
qed

lemma calls_Cons:
  assumes "checkLowBalanceAlert e d userId balance = (d', r)"
  shows "checkLowBalanceAlert_calls d userId ((e, balance) # calls) =
           (fst (checkLowBalanceAlert_calls d' userId calls),
            r # snd (checkLowBalanceAlert_calls d' userId calls))"
  using assms by (simp split: prod.splits)

text \<open>Once the day has its alert, further checks create nothing and return none.\<close>

lemma calls_when_alert_exists:
  "distinct (map p_user_id (user_policies d)) \<Longrightarrow>
   low_balance_since d userId day = [x] \<Longrightarrow>
   \<forall>c \<in> set calls. (\<forall>opn. \<not> fails (fst c) opn) \<and> today (fst c) = day \<Longrightarrow>
   snd (checkLowBalanceAlert_calls d userId calls) = replicate (length calls) None
   \<and> alerts (fst (checkLowBalanceAlert_calls d userId calls)) = alerts d"
proof (induction calls arbitrary: d)
  case Nil
  then show ?case by simp
next
  case (Cons c calls)
  obtain e balance where c: "c = (e, balance)" by (cases c)
  from Cons.prems(3) c have nf: "\<forall>opn. \<not> fails e opn" and day: "today e = day" by simp_all
  from Cons.prems(2) day have ex: "low_balance_since d userId (today e) = [x]" by simp
  from check_when_alert_exists [OF nf Cons.prems(1) ex, of balance]
  obtain d' where step: "checkLowBalanceAlert e d userId balance = (d', None)"
    and a: "alerts d' = alerts d"
    and u: "distinct (map p_user_id (user_policies d'))"
    by blast
  from Cons.prems(2) have one: "low_balance_since d' userId day = [x]"
    by (simp only: low_balance_since_alerts [OF a])
  from Cons.prems(3)
  have rest: "\<forall>c \<in> set calls. (\<forall>opn. \<not> fails (fst c) opn) \<and> today (fst c) = day" by simp
  from Cons.IH [OF u one rest] a show ?case
    unfolding c calls_Cons [OF step] by simp
qed

text \<open>
  With working storage, consecutive \<open>checkLowBalanceAlert\<close> calls for one user, all on
  the same UTC day and each with a balance at or below the policy's threshold, starting
  from a day without a low-balance alert for that user: the first call creates the alert
  and returns it, every later call returns none, and the day ends with exactly one
  low-balance alert for the user, the only row added to the table.
\<close>

lemma low_balance_alert_once_working_storage:
  assumes "distinct (map p_user_id (user_policies d))"
    and "\<forall>c \<in> set calls. (\<forall>opn. \<not> fails (fst c) opn) \<and> today (fst c) = day"
    and "\<forall>c \<in> set calls. js_le (snd c) (fl (policy_threshold d userId))"
    and "low_balance_since d userId day = []"
    and "calls \<noteq> []"
  shows "\<exists>a. snd (checkLowBalanceAlert_calls d userId calls) =
               Some a # replicate (length calls - 1) None
           \<and> alerts (fst (checkLowBalanceAlert_calls d userId calls)) = alerts d @ [a]
           \<and> low_balance_since (fst (checkLowBalanceAlert_calls d userId calls)) userId day
               = [a]"
proof -
  from assms(5) obtain c cs where calls: "calls = c # cs" by (cases calls) auto
  obtain e balance where c: "c = (e, balance)" by (cases c)
  from assms(2) calls c have nf: "\<forall>opn. \<not> fails e opn" and day: "today e = day" by simp_all
  from assms(4) day have none: "low_balance_since d userId (today e) = []" by simp
  from assms(3) calls c have low: "js_le balance (fl (policy_threshold d userId))" by simp
  from check_when_no_alert [OF nf assms(1) none low]
  obtain d' a where step: "checkLowBalanceAlert e d userId balance = (d', Some a)"
    and al: "alerts d' = alerts d @ [a]"
    and one: "low_balance_since d' userId (today e) = [a]"
    and u: "distinct (map p_user_id (user_policies d'))"
    by blast
  from one day have one': "low_balance_since d' userId day = [a]" by simp
  from assms(2) calls
  have rest: "\<forall>c \<in> set cs. (\<forall>opn. \<not> fails (fst c) opn) \<and> today (fst c) = day" by simp
  from calls_when_alert_exists [OF u one' rest]
  have r: "snd (checkLowBalanceAlert_calls d' userId cs) = replicate (length cs) None"
    and a': "alerts (fst (checkLowBalanceAlert_calls d' userId cs)) = alerts d'"
    by simp_all
  have res: "snd (checkLowBalanceAlert_calls d userId calls) =
               Some a # replicate (length calls - 1) None"
    unfolding calls c calls_Cons [OF step] using r by simp
  have fin: "fst (checkLowBalanceAlert_calls d userId calls) =
               fst (checkLowBalanceAlert_calls d' userId cs)"
    unfolding calls c calls_Cons [OF step] by simp
  have "low_balance_since (fst (checkLowBalanceAlert_calls d' userId cs)) userId day = [a]"
    using one' by (simp only: low_balance_since_alerts [OF a'])
  with res fin a' al show ?thesis by simp
qed

end
